theory Spec2Isabelle
  imports Complex_Main "HOL-Library.Log_Nat"
begin

section \<open>The convolution layer of \<^verbatim>\<open>reference_model/convolution_py.py\<close>\<close>

text \<open>
  The development embeds the class \<^verbatim>\<open>ConvolutionLayer\<close>: its constructor
  \<^verbatim>\<open>__init__\<close>, the helper \<^verbatim>\<open>_calculate_padding_amount\<close> and the method
  \<^verbatim>\<open>forward\<close>. Python integers are \<open>int\<close>, nested lists are nested HOL lists,
  every \<^verbatim>\<open>raise\<close> and every failing subscript is a value of \<open>py_error\<close>, and the
  objects \<^verbatim>\<open>forward\<close> can see or assign are the fields of a store that is passed
  through its statements.

  The samples and weights are kept polymorphic: the code only ever uses the literal
  \<^verbatim>\<open>0.0\<close>, \<^verbatim>\<open>+=\<close> and \<^verbatim>\<open>*\<close> on them, so the element type is any type with
  \<open>0\<close>, \<open>+\<close> and \<open>*\<close>, and no law of arithmetic is assumed unless a theorem says so.
\<close>

subsection \<open>Errors\<close>

text \<open>
  Every \<^verbatim>\<open>raise ValueError(...)\<close> of the source, by the message it carries; a
  formatted message keeps its two numbers (expected, got).
\<close>

datatype message =
    KernelSizeNotPositive
  | StrideNotPositive
  | PaddingModeNotZeroOrOne
  | InputChannelsNotPositive
  | OutputChannelsNotPositive
  | KernelWeightsEmpty
  | OuterDimensionMismatch int nat
  | InputChannelsDimensionMismatch int nat
  | HeightDimensionMismatch int nat
  | WidthDimensionMismatch int nat
  | InputImageEmpty
  | InputImageChannelsMismatch int nat
  | InvalidPaddingModeInternalState
  | OutputDimensionsNonPositive

datatype py_error = ValueError message | IndexError | ZeroDivisionError | OverflowError

subsection \<open>The layer object and its constructor\<close>

record 'a ConvolutionLayer =
  kernel_size :: int
  stride :: int
  padding_mode :: int
  input_channels :: int
  output_channels :: int
  kernel_weights :: "'a list list list list"

text \<open>\<^verbatim>\<open>for k_row in ic_weights\<close> (lines 34-36).\<close>

fun check_k_rows :: "int \<Rightarrow> 'a list list \<Rightarrow> py_error option" where
  "check_k_rows ks [] = None"
| "check_k_rows ks (k_row # rest) =
     (if int (length k_row) \<noteq> ks
      then Some (ValueError (WidthDimensionMismatch ks (length k_row)))
      else check_k_rows ks rest)"

text \<open>\<^verbatim>\<open>for ic_weights in oc_weights\<close> (lines 31-36).\<close>

fun check_ic_weights :: "int \<Rightarrow> 'a list list list \<Rightarrow> py_error option" where
  "check_ic_weights ks [] = None"
| "check_ic_weights ks (ic_weights # rest) =
     (if int (length ic_weights) \<noteq> ks
      then Some (ValueError (HeightDimensionMismatch ks (length ic_weights)))
      else (case check_k_rows ks ic_weights of
              Some err \<Rightarrow> Some err
            | None \<Rightarrow> check_ic_weights ks rest))"

text \<open>\<^verbatim>\<open>for oc_weights in self.kernel_weights\<close> (lines 28-36).\<close>

fun check_oc_weights :: "int \<Rightarrow> int \<Rightarrow> 'a list list list list \<Rightarrow> py_error option" where
  "check_oc_weights ic ks [] = None"
| "check_oc_weights ic ks (oc_weights # rest) =
     (if int (length oc_weights) \<noteq> ic
      then Some (ValueError (InputChannelsDimensionMismatch ic (length oc_weights)))
      else (case check_ic_weights ks oc_weights of
              Some err \<Rightarrow> Some err
            | None \<Rightarrow> check_oc_weights ic ks rest))"

text \<open>
  \<^verbatim>\<open>__init__\<close> (lines 4-36). The arguments are integers here, so each
  \<^verbatim>\<open>isinstance(_, int)\<close> test holds. An exception leaves the caller without an
  object: the result is the error alone.
\<close>

definition init ::
  "int \<Rightarrow> int \<Rightarrow> int \<Rightarrow> int \<Rightarrow> int \<Rightarrow> 'a list list list list \<Rightarrow> py_error + 'a ConvolutionLayer"
where
  "init ks st pm ic oc initial_kernel_weights =
     (if \<not> ks > 0 then Inl (ValueError KernelSizeNotPositive)
      else if \<not> st > 0 then Inl (ValueError StrideNotPositive)
      else if pm \<notin> set [0, 1] then Inl (ValueError PaddingModeNotZeroOrOne)
      else if \<not> ic > 0 then Inl (ValueError InputChannelsNotPositive)
      else if \<not> oc > 0 then Inl (ValueError OutputChannelsNotPositive)
      else if initial_kernel_weights = [] then Inl (ValueError KernelWeightsEmpty)
      else if int (length initial_kernel_weights) \<noteq> oc
        then Inl (ValueError (OuterDimensionMismatch oc (length initial_kernel_weights)))
      else (case check_oc_weights ic ks initial_kernel_weights of
              Some err \<Rightarrow> Inl err
            | None \<Rightarrow>
                Inr \<lparr>kernel_size = ks, stride = st, padding_mode = pm, input_channels = ic,
                     output_channels = oc, kernel_weights = initial_kernel_weights\<rparr>))"

subsection \<open>The quotient of two integers as a float\<close>

text \<open>
  Python's \<^verbatim>\<open>a / b\<close> on integers (lines 40, 64 and 65) is the double nearest to
  the exact quotient, ties going to the even significand; it raises
  \<^verbatim>\<open>ZeroDivisionError\<close> for a zero divisor and \<^verbatim>\<open>OverflowError\<close> when that double
  would not be finite, and a quotient too small for a double becomes \<^verbatim>\<open>0.0\<close>.
  Every finite double is a whole number of steps of \<open>2^-1074\<close>, the smallest positive
  double, so the result is computed in these steps: the quotient is rounded to 53
  significant bits, or to a whole number of steps where it has fewer than 53 bits above
  the smallest step. A double is written as the real number it stands for.
\<close>

definition round_half_even :: "int \<Rightarrow> int \<Rightarrow> int" where
  "round_half_even n d =
     (let q = n div d; r = n mod d
      in if 2 * r < d then q else if d < 2 * r then q + 1 else if even q then q else q + 1)"

definition ulps_per_unit :: int where
  "ulps_per_unit = 2 ^ 1074"

definition overflow_ulps :: int where
  "overflow_ulps = 2 ^ 2098"

text \<open>The double of \<open>a / b\<close> for positive \<open>a\<close> and \<open>b\<close>.\<close>

definition double_of_ratio :: "int \<Rightarrow> int \<Rightarrow> py_error + real" where
  "double_of_ratio a b =
     (let m = (a * ulps_per_unit) div b;
          shift = nat (bitlen m - 53);
          n = round_half_even (a * ulps_per_unit) (b * 2 ^ shift);
          k = n * 2 ^ shift
      in if overflow_ulps \<le> k then Inl OverflowError
         else Inr (real_of_int k / real_of_int ulps_per_unit))"

definition py_truediv :: "int \<Rightarrow> int \<Rightarrow> py_error + real" where
  "py_truediv a b =
     (if b = 0 then Inl ZeroDivisionError
      else if a = 0 then Inr 0
      else (case double_of_ratio \<bar>a\<bar> \<bar>b\<bar> of
              Inl err \<Rightarrow> Inl err
            | Inr x \<Rightarrow> Inr (if (a < 0) = (b < 0) then x else - x)))"

subsection \<open>Output dimensions and padding\<close>

text \<open>
  \<^verbatim>\<open>int(x)\<close> on a float truncates toward zero, and \<^verbatim>\<open>math.ceil(x)\<close> is the least
  integer that is not below \<open>x\<close>; both are exact.
\<close>

definition py_int :: "real \<Rightarrow> int" where
  "py_int x = (if 0 \<le> x then \<lfloor>x\<rfloor> else \<lceil>x\<rceil>)"

definition math_ceil :: "real \<Rightarrow> int" where
  "math_ceil x = \<lceil>x\<rceil>"

text \<open>\<^verbatim>\<open>_calculate_padding_amount\<close> (lines 38-41).\<close>

definition calculate_padding_amount ::
  "'a ConvolutionLayer \<Rightarrow> int \<Rightarrow> int \<Rightarrow> py_error + int" where
  "calculate_padding_amount e input_dim target_output_dim =
     (case py_truediv ((target_output_dim - 1) * stride e + kernel_size e - input_dim) 2 of
        Inl err \<Rightarrow> Inl err
      | Inr padding \<Rightarrow> Inr (max 0 (py_int padding)))"

record dims =
  input_height :: int
  input_width :: int
  padding_h :: int
  padding_w :: int
  output_height :: int
  output_width :: int

text \<open>
  Lines 54-70 of \<^verbatim>\<open>forward\<close>, from the two lengths read off the first channel, each
  statement in its turn: a raise in one of them ends the computation. A zero stride
  makes \<^verbatim>\<open>//\<close> raise; Python's \<^verbatim>\<open>//\<close> on integers rounds down, as \<open>div\<close> does.
\<close>

definition derive_dims :: "'a ConvolutionLayer \<Rightarrow> int \<Rightarrow> int \<Rightarrow> py_error + dims" where
  "derive_dims e ih iw =
     (if padding_mode e = 0 then
        (if stride e = 0 then Inl ZeroDivisionError
         else Inr \<lparr>input_height = ih, input_width = iw, padding_h = 0, padding_w = 0,
                   output_height = (ih - kernel_size e) div stride e + 1,
                   output_width = (iw - kernel_size e) div stride e + 1\<rparr>)
      else if padding_mode e = 1 then
        (case py_truediv ih (stride e) of
           Inl err \<Rightarrow> Inl err
         | Inr quotient_h \<Rightarrow>
             (case py_truediv iw (stride e) of
                Inl err \<Rightarrow> Inl err
              | Inr quotient_w \<Rightarrow>
                  (case calculate_padding_amount e ih (math_ceil quotient_h) of
                     Inl err \<Rightarrow> Inl err
                   | Inr pad_h \<Rightarrow>
                       (case calculate_padding_amount e iw (math_ceil quotient_w) of
                          Inl err \<Rightarrow> Inl err
                        | Inr pad_w \<Rightarrow>
                            Inr \<lparr>input_height = ih, input_width = iw,
                                 padding_h = pad_h, padding_w = pad_w,
                                 output_height = math_ceil quotient_h,
                                 output_width = math_ceil quotient_w\<rparr>))))
      else Inl (ValueError InvalidPaddingModeInternalState))"

subsection \<open>The store and the loops of \<^verbatim>\<open>forward\<close>\<close>

text \<open>
  What a call can read or assign: the layer, the caller's input and the two locals the
  loops assign. A statement that raises hands back the error with the store as it
  stands at the raise.
\<close>

record 'a store =
  self :: "'a ConvolutionLayer"
  input_image :: "'a list list list"
  output_image :: "'a list list list"
  current_sum :: 'a

type_synonym 'a outcome = "(py_error \<times> 'a store) + 'a store"

text \<open>A subscript read \<^verbatim>\<open>xs[i]\<close>; a negative index counts from the end.\<close>

definition getitem :: "'b list \<Rightarrow> int \<Rightarrow> py_error + 'b" where
  "getitem xs i =
     (if 0 \<le> i \<and> i < int (length xs) then Inr (xs ! nat i)
      else if i < 0 \<and> - int (length xs) \<le> i then Inr (xs ! nat (int (length xs) + i))
      else Inl IndexError)"

definition getitem3 :: "'b list list list \<Rightarrow> int \<Rightarrow> int \<Rightarrow> int \<Rightarrow> py_error + 'b" where
  "getitem3 t i j k =
     (case getitem t i of
        Inl err \<Rightarrow> Inl err
      | Inr c \<Rightarrow> (case getitem c j of Inl err \<Rightarrow> Inl err | Inr r \<Rightarrow> getitem r k))"

definition getitem4 ::
  "'b list list list list \<Rightarrow> int \<Rightarrow> int \<Rightarrow> int \<Rightarrow> int \<Rightarrow> py_error + 'b" where
  "getitem4 t i j k l =
     (case getitem t i of Inl err \<Rightarrow> Inl err | Inr c \<Rightarrow> getitem3 c j k l)"

text \<open>\<^verbatim>\<open>range(n)\<close> from an integer, and a \<^verbatim>\<open>for\<close> loop that stops at a raise.\<close>

definition py_range :: "int \<Rightarrow> nat list" where
  "py_range n = [0..<nat n]"

fun for_each :: "nat list \<Rightarrow> (nat \<Rightarrow> 's \<Rightarrow> ('e \<times> 's) + 's) \<Rightarrow> 's \<Rightarrow> ('e \<times> 's) + 's" where
  "for_each [] body s = Inr s"
| "for_each (i # rest) body s =
     (case body i s of Inl x \<Rightarrow> Inl x | Inr s' \<Rightarrow> for_each rest body s')"

text \<open>The two index computations of lines 87-88 and the test of line 91.\<close>

definition h_idx :: "'a ConvolutionLayer \<Rightarrow> dims \<Rightarrow> nat \<Rightarrow> nat \<Rightarrow> int" where
  "h_idx e d out_h k_h = int out_h * stride e + int k_h - padding_h d"

definition w_idx :: "'a ConvolutionLayer \<Rightarrow> dims \<Rightarrow> nat \<Rightarrow> nat \<Rightarrow> int" where
  "w_idx e d out_w k_w = int out_w * stride e + int k_w - padding_w d"

definition in_bounds :: "dims \<Rightarrow> int \<Rightarrow> int \<Rightarrow> bool" where
  "in_bounds d h w \<longleftrightarrow> 0 \<le> h \<and> h < input_height d \<and> 0 \<le> w \<and> w < input_width d"

text \<open>The body of the innermost loop (lines 87-94).\<close>

definition accumulate ::
  "dims \<Rightarrow> nat \<Rightarrow> nat \<Rightarrow> nat \<Rightarrow> nat \<Rightarrow> nat \<Rightarrow> nat \<Rightarrow>
   ('a::{zero,plus,times}) store \<Rightarrow> 'a outcome"
where
  "accumulate d out_c out_h out_w in_c k_h k_w s =
     (let h = h_idx (self s) d out_h k_h;
          w = w_idx (self s) d out_w k_w
      in case (if in_bounds d h w
               then getitem3 (input_image s) (int in_c) h w
               else Inr 0) of
           Inl err \<Rightarrow> Inl (err, s)
         | Inr pixel_value \<Rightarrow>
             (case getitem4 (kernel_weights (self s)) (int out_c) (int in_c) (int k_h) (int k_w) of
                Inl err \<Rightarrow> Inl (err, s)
              | Inr weight \<Rightarrow> Inr (s\<lparr>current_sum := current_sum s + pixel_value * weight\<rparr>)))"

text \<open>The three inner loops (lines 84-86).\<close>

definition loop_k_w ::
  "dims \<Rightarrow> nat \<Rightarrow> nat \<Rightarrow> nat \<Rightarrow> nat \<Rightarrow> nat \<Rightarrow> ('a::{zero,plus,times}) store \<Rightarrow> 'a outcome"
where
  "loop_k_w d out_c out_h out_w in_c k_h s =
     for_each (py_range (kernel_size (self s))) (accumulate d out_c out_h out_w in_c k_h) s"

definition loop_k_h ::
  "dims \<Rightarrow> nat \<Rightarrow> nat \<Rightarrow> nat \<Rightarrow> nat \<Rightarrow> ('a::{zero,plus,times}) store \<Rightarrow> 'a outcome"
where
  "loop_k_h d out_c out_h out_w in_c s =
     for_each (py_range (kernel_size (self s))) (loop_k_w d out_c out_h out_w in_c) s"

definition loop_in_c ::
  "dims \<Rightarrow> nat \<Rightarrow> nat \<Rightarrow> nat \<Rightarrow> ('a::{zero,plus,times}) store \<Rightarrow> 'a outcome"
where
  "loop_in_c d out_c out_h out_w s =
     for_each (py_range (input_channels (self s))) (loop_k_h d out_c out_h out_w) s"

text \<open>
  The assignment \<^verbatim>\<open>output_image[out_c][out_h][out_w] = current_sum\<close> (line 95). The
  rows of \<^verbatim>\<open>output_image\<close> are distinct lists (each comes from its own run of the
  comprehension of lines 75-78), so the assignment changes one cell.
\<close>

definition store_cell :: "nat \<Rightarrow> nat \<Rightarrow> nat \<Rightarrow> 'a store \<Rightarrow> 'a outcome" where
  "store_cell out_c out_h out_w s =
     (let out = output_image s
      in if out_c < length out \<and> out_h < length (out ! out_c)
            \<and> out_w < length (out ! out_c ! out_h)
         then Inr (s\<lparr>output_image :=
                      out[out_c := (out ! out_c)[out_h :=
                        (out ! out_c ! out_h)[out_w := current_sum s]]]\<rparr>)
         else Inl (IndexError, s))"

text \<open>The body of the loop over \<^verbatim>\<open>out_w\<close> (lines 83-95).\<close>

definition compute_cell ::
  "dims \<Rightarrow> nat \<Rightarrow> nat \<Rightarrow> nat \<Rightarrow> ('a::{zero,plus,times}) store \<Rightarrow> 'a outcome"
where
  "compute_cell d out_c out_h out_w s =
     (case loop_in_c d out_c out_h out_w (s\<lparr>current_sum := 0\<rparr>) of
        Inl x \<Rightarrow> Inl x
      | Inr s' \<Rightarrow> store_cell out_c out_h out_w s')"

text \<open>The three outer loops (lines 80-82).\<close>

definition loop_out_w ::
  "dims \<Rightarrow> nat \<Rightarrow> nat \<Rightarrow> ('a::{zero,plus,times}) store \<Rightarrow> 'a outcome"
where
  "loop_out_w d out_c out_h s =
     for_each (py_range (output_width d)) (compute_cell d out_c out_h) s"

definition loop_out_h ::
  "dims \<Rightarrow> nat \<Rightarrow> ('a::{zero,plus,times}) store \<Rightarrow> 'a outcome"
where
  "loop_out_h d out_c s =
     for_each (py_range (output_height d)) (loop_out_w d out_c) s"

definition loop_out_c :: "dims \<Rightarrow> ('a::{zero,plus,times}) store \<Rightarrow> 'a outcome" where
  "loop_out_c d s =
     for_each (py_range (output_channels (self s))) (loop_out_h d) s"

text \<open>The comprehension of lines 75-78.\<close>

definition zeros :: "int \<Rightarrow> int \<Rightarrow> int \<Rightarrow> ('a::zero) list list list" where
  "zeros oc oh ow =
     map (\<lambda>_. map (\<lambda>_. map (\<lambda>_. 0) (py_range ow)) (py_range oh)) (py_range oc)"

text \<open>
  \<^verbatim>\<open>forward\<close> (lines 43-97) on a store. The three tests of line 49 are on the tensor,
  its first channel and the first row of that channel, in this order.
\<close>

definition forward_run :: "('a::{zero,plus,times}) store \<Rightarrow> 'a outcome" where
  "forward_run s =
     (case input_image s of
        [] \<Rightarrow> Inl (ValueError InputImageEmpty, s)
      | channel0 # _ \<Rightarrow>
          (case channel0 of
             [] \<Rightarrow> Inl (ValueError InputImageEmpty, s)
           | row0 # _ \<Rightarrow>
               (case row0 of
                  [] \<Rightarrow> Inl (ValueError InputImageEmpty, s)
                | _ # _ \<Rightarrow>
                    (if int (length (input_image s)) \<noteq> input_channels (self s)
                     then Inl (ValueError (InputImageChannelsMismatch
                                 (input_channels (self s)) (length (input_image s))), s)
                     else
                       (case derive_dims (self s) (int (length channel0)) (int (length row0)) of
                          Inl err \<Rightarrow> Inl (err, s)
                        | Inr d \<Rightarrow>
                            (if output_height d \<le> 0 \<or> output_width d \<le> 0
                             then Inl (ValueError OutputDimensionsNonPositive, s)
                             else loop_out_c d
                                    (s\<lparr>output_image :=
                                         zeros (output_channels (self s))
                                           (output_height d) (output_width d)\<rparr>)))))))"

text \<open>
  A call \<^verbatim>\<open>layer.forward(input_image)\<close>: the locals start unassigned (the
  placeholders are never read: line 75 and line 83 assign them first), and the caller
  gets the returned tensor or the exception.
\<close>

definition call_store :: "'a ConvolutionLayer \<Rightarrow> 'a list list list \<Rightarrow> ('a::zero) store" where
  "call_store e img = \<lparr>self = e, input_image = img, output_image = [], current_sum = 0\<rparr>"

definition forward ::
  "('a::{zero,plus,times}) ConvolutionLayer \<Rightarrow> 'a list list list \<Rightarrow> py_error + 'a list list list"
where
  "forward e img =
     (case forward_run (call_store e img) of
        Inl (err, _) \<Rightarrow> Inl err
      | Inr s \<Rightarrow> Inr (output_image s))"

section \<open>What the specification says\<close>

subsection \<open>Tensors\<close>

text \<open>
  A tensor of shape \<open>[c][h][w]\<close>; the height and width of a tensor are those of its
  first channel and of that channel's first row; a tensor is empty when it has no
  channel, no row or no column, and rectangular when every channel has the height and
  every row the width of the tensor.
\<close>

definition tensor_shape :: "nat \<Rightarrow> nat \<Rightarrow> nat \<Rightarrow> 'a list list list \<Rightarrow> bool" where
  "tensor_shape c h w t \<longleftrightarrow>
     length t = c \<and> (\<forall>ch \<in> set t. length ch = h \<and> (\<forall>r \<in> set ch. length r = w))"

definition tensor_empty :: "'a list list list \<Rightarrow> bool" where
  "tensor_empty img =
     (case img of [] \<Rightarrow> True
      | c # _ \<Rightarrow> (case c of [] \<Rightarrow> True | r # _ \<Rightarrow> (case r of [] \<Rightarrow> True | _ # _ \<Rightarrow> False)))"

definition tensor_height :: "'a list list list \<Rightarrow> int" where
  "tensor_height img = (case img of [] \<Rightarrow> 0 | c # _ \<Rightarrow> int (length c))"

definition tensor_width :: "'a list list list \<Rightarrow> int" where
  "tensor_width img =
     (case img of [] \<Rightarrow> 0 | c # _ \<Rightarrow> (case c of [] \<Rightarrow> 0 | r # _ \<Rightarrow> int (length r)))"

definition rectangular :: "'a list list list \<Rightarrow> bool" where
  "rectangular img \<longleftrightarrow>
     (\<forall>c \<in> set img. int (length c) = tensor_height img \<and>
        (\<forall>r \<in> set c. int (length r) = tensor_width img))"

text \<open>The lengths of the kernel weights, as section 3 of the specification lists them.\<close>

definition weights_ok :: "'a ConvolutionLayer \<Rightarrow> bool" where
  "weights_ok e \<longleftrightarrow>
     int (length (kernel_weights e)) = output_channels e \<and>
     (\<forall>x \<in> set (kernel_weights e). int (length x) = input_channels e \<and>
        (\<forall>y \<in> set x. int (length y) = kernel_size e \<and>
           (\<forall>r \<in> set y. int (length r) = kernel_size e)))"

subsection \<open>The accumulated sum\<close>

text \<open>
  The input sample at a row and a column, replaced by zero outside the input; one term
  of the sum; the sum over input channel, kernel row and kernel column, added in this
  order from zero; and the tensor of all sums.
\<close>

definition sample :: "dims \<Rightarrow> ('a::zero) list list list \<Rightarrow> nat \<Rightarrow> int \<Rightarrow> int \<Rightarrow> 'a" where
  "sample d img ic h w = (if in_bounds d h w then img ! ic ! nat h ! nat w else 0)"

definition cell_term ::
  "('a::{zero,plus,times}) ConvolutionLayer \<Rightarrow> dims \<Rightarrow> 'a list list list \<Rightarrow>
   nat \<Rightarrow> nat \<Rightarrow> nat \<Rightarrow> nat \<Rightarrow> nat \<Rightarrow> nat \<Rightarrow> 'a" where
  "cell_term e d img oc oh ow ic kh kw =
     sample d img ic (h_idx e d oh kh) (w_idx e d ow kw)
       * kernel_weights e ! oc ! ic ! kh ! kw"

definition cell_sum ::
  "('a::{zero,plus,times}) ConvolutionLayer \<Rightarrow> dims \<Rightarrow> 'a list list list \<Rightarrow>
   nat \<Rightarrow> nat \<Rightarrow> nat \<Rightarrow> 'a" where
  "cell_sum e d img oc oh ow =
     foldl (+) 0
       [cell_term e d img oc oh ow ic kh kw.
          ic \<leftarrow> [0..<nat (input_channels e)],
          kh \<leftarrow> [0..<nat (kernel_size e)],
          kw \<leftarrow> [0..<nat (kernel_size e)]]"

definition conv_spec ::
  "('a::{zero,plus,times}) ConvolutionLayer \<Rightarrow> dims \<Rightarrow> 'a list list list \<Rightarrow> 'a list list list"
where
  "conv_spec e d img =
     map (\<lambda>oc. map (\<lambda>oh. map (\<lambda>ow. cell_sum e d img oc oh ow)
                             [0..<nat (output_width d)])
                  [0..<nat (output_height d)])
         [0..<nat (output_channels e)]"

text \<open>
  The loop invariant of the three outer loops: the layer and the input are the caller's,
  the output keeps its shape, and every cell before \<open>(c, h, w)\<close> in the order of the
  loops holds its sum.
\<close>

definition filled ::
  "('a::{zero,plus,times}) ConvolutionLayer \<Rightarrow> dims \<Rightarrow> 'a list list list \<Rightarrow>
   nat \<Rightarrow> nat \<Rightarrow> nat \<Rightarrow> 'a store \<Rightarrow> bool"
where
  "filled e d img c h w s \<longleftrightarrow>
     self s = e \<and> input_image s = img \<and>
     tensor_shape (nat (output_channels e)) (nat (output_height d)) (nat (output_width d))
       (output_image s) \<and>
     (\<forall>c' h' w'. c' < nat (output_channels e) \<longrightarrow> h' < nat (output_height d) \<longrightarrow>
        w' < nat (output_width d) \<longrightarrow>
        (c' < c \<or> (c' = c \<and> (h' < h \<or> (h' = h \<and> w' < w)))) \<longrightarrow>
        output_image s ! c' ! h' ! w' = cell_sum e d img c' h' w')"

text \<open>The layer and the input of the examples.\<close>

definition layer1 :: "int ConvolutionLayer" where
  "layer1 = \<lparr>kernel_size = 2, stride = 1, padding_mode = 1, input_channels = 1,
              output_channels = 1, kernel_weights = [[[[1, 2], [3, 4]]]]\<rparr>"

definition image1 :: "int list list list" where
  "image1 = [[[1, 2, 3], [4, 5, 6]]]"


subsection \<open>Output dimensions\<close>

text \<open>
  The output dimension of section 4.2 for one axis, by the padding mode of the layer,
  the one-sided padding amount of the SAME mode, and the three reasons for which
  \<^verbatim>\<open>forward\<close> is to reject an input.
\<close>

definition output_dim :: "'a ConvolutionLayer \<Rightarrow> int \<Rightarrow> int" where
  "output_dim e n =
     (if padding_mode e = 0
      then \<lfloor>real_of_int (n - kernel_size e) / real_of_int (stride e)\<rfloor> + 1
      else \<lceil>real_of_int n / real_of_int (stride e)\<rceil>)"

definition same_padding :: "'a ConvolutionLayer \<Rightarrow> int \<Rightarrow> int" where
  "same_padding e n =
     max 0 \<lfloor>real_of_int ((output_dim e n - 1) * stride e + kernel_size e - n) / 2\<rfloor>"

definition shape_rejected :: "'a ConvolutionLayer \<Rightarrow> 'a list list list \<Rightarrow> bool" where
  "shape_rejected e img \<longleftrightarrow>
     tensor_empty img \<or> int (length img) \<noteq> input_channels e \<or>
     output_dim e (tensor_height img) \<le> 0 \<or> output_dim e (tensor_width img) \<le> 0"

definition layer2 :: "int ConvolutionLayer" where
  "layer2 = \<lparr>kernel_size = 2, stride = 2, padding_mode = 0, input_channels = 1,
              output_channels = 1, kernel_weights = [[[[1, 2], [3, 4]]]]\<rparr>"

definition image2 :: "int list list list" where
  "image2 = [[[1, 2, 3, 4], [5, 6, 7, 8], [9, 10, 11, 12]]]"

definition layer3 :: "int ConvolutionLayer" where
  "layer3 = \<lparr>kernel_size = 3, stride = 2, padding_mode = 1, input_channels = 1,
              output_channels = 1,
              kernel_weights = [[[[1, 1, 1], [1, 1, 1], [1, 1, 1]]]]\<rparr>"

definition image3 :: "int list list list" where
  "image3 = [[[1, 2, 3, 4], [5, 6, 7, 8], [9, 10, 11, 12], [13, 14, 15, 16], [17, 18, 19, 20]]]"

subsection \<open>What a call leaves behind\<close>

text \<open>
  The layer and the input of a store at the end of a call, returned or raised, are the
  given ones.
\<close>

definition frame_kept :: "'a ConvolutionLayer \<Rightarrow> 'a list list list \<Rightarrow> 'a outcome \<Rightarrow> bool" where
  "frame_kept e img r =
     (case r of
        Inl (err, s) \<Rightarrow> self s = e \<and> input_image s = img
      | Inr s \<Rightarrow> self s = e \<and> input_image s = img)"

definition layer4 :: "int ConvolutionLayer" where
  "layer4 = \<lparr>kernel_size = 2, stride = 1, padding_mode = 0, input_channels = 2,
              output_channels = 1, kernel_weights = [[[[1, 2], [3, 4]], [[5, 6], [7, 8]]]]\<rparr>"

definition ragged_small :: "int list list list" where
  "ragged_small = [[[1]], [[1, 2]]]"

definition ragged_short :: "int list list list" where
  "ragged_short = [[[1, 2], [3, 4]], [[5]]]"

text \<open>
  The \<^verbatim>\<open>ValueError\<close> that the specification expects of \<^verbatim>\<open>forward\<close>, if any, by
  the three reasons in the order of section 4.3 and 4.2.
\<close>

definition shape_error :: "'a ConvolutionLayer \<Rightarrow> 'a list list list \<Rightarrow> message option" where
  "shape_error e img =
     (if tensor_empty img then Some InputImageEmpty
      else if int (length img) \<noteq> input_channels e
        then Some (InputImageChannelsMismatch (input_channels e) (length img))
      else if output_dim e (tensor_height img) \<le> 0 \<or> output_dim e (tensor_width img) \<le> 0
        then Some OutputDimensionsNonPositive
      else None)"

subsection \<open>The invariants of the configuration\<close>

text \<open>
  The structural invariants of section 3 of the specification, in the order in which
  it lists them, what it is for each to hold of the arguments of the constructor, and
  the first of them that is violated.
\<close>

datatype invariant =
    KernelSizePositive
  | StridePositive
  | InputChannelsPositive
  | OutputChannelsPositive
  | PaddingModeKnown
  | OuterLength
  | SecondLevelLength
  | ThirdLevelLength
  | InnermostLength

definition section3_order :: "invariant list" where
  "section3_order =
     [KernelSizePositive, StridePositive, InputChannelsPositive, OutputChannelsPositive,
      PaddingModeKnown, OuterLength, SecondLevelLength, ThirdLevelLength, InnermostLength]"

fun holds ::
  "int \<Rightarrow> int \<Rightarrow> int \<Rightarrow> int \<Rightarrow> int \<Rightarrow> 'a list list list list \<Rightarrow> invariant \<Rightarrow> bool" where
  "holds ks st pm ic oc w KernelSizePositive = (0 < ks)"
| "holds ks st pm ic oc w StridePositive = (0 < st)"
| "holds ks st pm ic oc w InputChannelsPositive = (0 < ic)"
| "holds ks st pm ic oc w OutputChannelsPositive = (0 < oc)"
| "holds ks st pm ic oc w PaddingModeKnown = (pm = 0 \<or> pm = 1)"
| "holds ks st pm ic oc w OuterLength = (int (length w) = oc)"
| "holds ks st pm ic oc w SecondLevelLength = (\<forall>x \<in> set w. int (length x) = ic)"
| "holds ks st pm ic oc w ThirdLevelLength =
     (\<forall>x \<in> set w. \<forall>y \<in> set x. int (length y) = ks)"
| "holds ks st pm ic oc w InnermostLength =
     (\<forall>x \<in> set w. \<forall>y \<in> set x. \<forall>r \<in> set y. int (length r) = ks)"

definition config_invariants ::
  "int \<Rightarrow> int \<Rightarrow> int \<Rightarrow> int \<Rightarrow> int \<Rightarrow> 'a list list list list \<Rightarrow> bool" where
  "config_invariants ks st pm ic oc w \<longleftrightarrow>
     (\<forall>i \<in> set section3_order. holds ks st pm ic oc w i)"

definition first_violated ::
  "int \<Rightarrow> int \<Rightarrow> int \<Rightarrow> int \<Rightarrow> int \<Rightarrow> 'a list list list list \<Rightarrow> invariant option" where
  "first_violated ks st pm ic oc w =
     find (\<lambda>i. \<not> holds ks st pm ic oc w i) section3_order"

text \<open>The invariant whose violation a message of the constructor reports.\<close>

fun reports :: "message \<Rightarrow> invariant option" where
  "reports KernelSizeNotPositive = Some KernelSizePositive"
| "reports StrideNotPositive = Some StridePositive"
| "reports PaddingModeNotZeroOrOne = Some PaddingModeKnown"
| "reports InputChannelsNotPositive = Some InputChannelsPositive"
| "reports OutputChannelsNotPositive = Some OutputChannelsPositive"
| "reports KernelWeightsEmpty = Some OuterLength"
| "reports (OuterDimensionMismatch _ _) = Some OuterLength"
| "reports (InputChannelsDimensionMismatch _ _) = Some SecondLevelLength"
| "reports (HeightDimensionMismatch _ _) = Some ThirdLevelLength"
| "reports (WidthDimensionMismatch _ _) = Some InnermostLength"
| "reports _ = None"

text \<open>
  The checks in the order in which the constructor makes them, each with the message
  of its failure: the five scalars, the weights as a whole, then block by block the
  length of an output channel's block, of each input channel's block in it and of each
  row of that. The first failure of a list of checks is the message of the first check
  that does not hold.
\<close>

definition row_checks :: "int \<Rightarrow> 'a list list \<Rightarrow> (bool \<times> message) list" where
  "row_checks ks y =
     map (\<lambda>r. (int (length r) = ks, WidthDimensionMismatch ks (length r))) y"

definition ic_checks :: "int \<Rightarrow> 'a list list list \<Rightarrow> (bool \<times> message) list" where
  "ic_checks ks x =
     concat (map (\<lambda>y. (int (length y) = ks, HeightDimensionMismatch ks (length y))
                        # row_checks ks y) x)"

definition oc_checks :: "int \<Rightarrow> int \<Rightarrow> 'a list list list list \<Rightarrow> (bool \<times> message) list" where
  "oc_checks ic ks w =
     concat (map (\<lambda>x. (int (length x) = ic, InputChannelsDimensionMismatch ic (length x))
                        # ic_checks ks x) w)"

definition constructor_checks ::
  "int \<Rightarrow> int \<Rightarrow> int \<Rightarrow> int \<Rightarrow> int \<Rightarrow> 'a list list list list \<Rightarrow> (bool \<times> message) list" where
  "constructor_checks ks st pm ic oc w =
     [(0 < ks, KernelSizeNotPositive),
      (0 < st, StrideNotPositive),
      (pm = 0 \<or> pm = 1, PaddingModeNotZeroOrOne),
      (0 < ic, InputChannelsNotPositive),
      (0 < oc, OutputChannelsNotPositive),
      (w \<noteq> [], KernelWeightsEmpty),
      (int (length w) = oc, OuterDimensionMismatch oc (length w))]
     @ oc_checks ic ks w"

definition first_failure :: "(bool \<times> message) list \<Rightarrow> message option" where
  "first_failure checks = map_option snd (find (\<lambda>c. \<not> fst c) checks)"

subsection \<open>Python floats\<close>

text \<open>
  The values of a Python \<^verbatim>\<open>float\<close>: the finite ones, the two infinities and the
  not-a-number. A finite float is taken as the real number it stands for, so rounding,
  overflow to an infinity and the sign of a zero are left out; the sums and products of
  the infinities and of the not-a-number are those of IEEE 754, which Python follows.
  The three laws of finite floats that the theorems below use (\<open>x * 0.0 == 0.0\<close>,
  \<open>x * 1.0 == x\<close> and \<open>0.0 + x == x\<close>) are exact in IEEE 754 as well.
\<close>

datatype pyfloat = Finite real | PosInf | NegInf | NaN

instantiation pyfloat :: "{zero, one, plus, times}"
begin

definition zero_pyfloat :: pyfloat where
  "zero_pyfloat = Finite 0"

definition one_pyfloat :: pyfloat where
  "one_pyfloat = Finite 1"

fun plus_pyfloat :: "pyfloat \<Rightarrow> pyfloat \<Rightarrow> pyfloat" where
  "plus_pyfloat NaN _ = NaN"
| "plus_pyfloat _ NaN = NaN"
| "plus_pyfloat (Finite a) (Finite b) = Finite (a + b)"
| "plus_pyfloat PosInf NegInf = NaN"
| "plus_pyfloat NegInf PosInf = NaN"
| "plus_pyfloat PosInf _ = PosInf"
| "plus_pyfloat _ PosInf = PosInf"
| "plus_pyfloat NegInf _ = NegInf"
| "plus_pyfloat _ NegInf = NegInf"

fun times_pyfloat :: "pyfloat \<Rightarrow> pyfloat \<Rightarrow> pyfloat" where
  "times_pyfloat NaN _ = NaN"
| "times_pyfloat _ NaN = NaN"
| "times_pyfloat (Finite a) (Finite b) = Finite (a * b)"
| "times_pyfloat (Finite a) PosInf = (if a = 0 then NaN else if 0 < a then PosInf else NegInf)"
| "times_pyfloat (Finite a) NegInf = (if a = 0 then NaN else if 0 < a then NegInf else PosInf)"
| "times_pyfloat PosInf (Finite b) = (if b = 0 then NaN else if 0 < b then PosInf else NegInf)"
| "times_pyfloat NegInf (Finite b) = (if b = 0 then NaN else if 0 < b then NegInf else PosInf)"
| "times_pyfloat PosInf PosInf = PosInf"
| "times_pyfloat PosInf NegInf = NegInf"
| "times_pyfloat NegInf PosInf = NegInf"
| "times_pyfloat NegInf NegInf = PosInf"

instance ..

end

definition finite_float :: "pyfloat \<Rightarrow> bool" where
  "finite_float x = (case x of Finite _ \<Rightarrow> True | _ \<Rightarrow> False)"

text \<open>The layers of the two examples with floats.\<close>

definition zero_layer :: "pyfloat ConvolutionLayer" where
  "zero_layer = \<lparr>kernel_size = 1, stride = 1, padding_mode = 0, input_channels = 1,
                 output_channels = 1, kernel_weights = [[[[0]]]]\<rparr>"

definition identity_layer :: "pyfloat ConvolutionLayer" where
  "identity_layer = \<lparr>kernel_size = 1, stride = 1, padding_mode = 0, input_channels = 2,
                     output_channels = 1, kernel_weights = [[[[1]], [[0]]]]\<rparr>"

subsection \<open>Sizes for which the float quotients are exact\<close>

text \<open>
  Under VALID padding \<^verbatim>\<open>forward\<close> uses no float for its dimensions. Under SAME
  padding the quotients of lines 40, 64 and 65 give the exact ceiling and the exact half
  when the stride, the kernel size and the height and width of the input are below
  \<open>2^53\<close>, the range in which a double holds every integer.
\<close>

definition exact_sizes :: "'a ConvolutionLayer \<Rightarrow> 'a list list list \<Rightarrow> bool" where
  "exact_sizes e img \<longleftrightarrow>
     padding_mode e = 0 \<or>
     (stride e < 2 ^ 53 \<and> kernel_size e < 2 ^ 53 \<and>
      tensor_height img < 2 ^ 53 \<and> tensor_width img < 2 ^ 53)"

text \<open>
  A stride beyond the range of a double, and the layers of kernel size 1 with SAME
  padding and this stride.
\<close>

definition huge_stride :: int where
  "huge_stride = 2 ^ 1075"

definition huge_stride_layer :: "int \<Rightarrow> 'a list list list list \<Rightarrow> 'a ConvolutionLayer" where
  "huge_stride_layer ic w =
     \<lparr>kernel_size = 1, stride = huge_stride, padding_mode = 1, input_channels = ic,
      output_channels = 1, kernel_weights = w\<rparr>"

definition huge_layer :: "int ConvolutionLayer" where
  "huge_layer = huge_stride_layer 1 [[[[1]]]]"

section \<open>The float quotient of two integers\<close>

lemma round_half_even_le:
  assumes "0 < d" "n \<le> u * d"
  shows "round_half_even n d \<le> u"
proof -
  define q r where "q = n div d" and "r = n mod d"
  have n: "n = q * d + r" and r: "0 \<le> r" "r < d"
    using assms(1) by (simp_all add: q_def r_def)
  have qu: "q \<le> u"
  proof (rule ccontr)
    assume "\<not> q \<le> u"
    then have "u + 1 \<le> q" by simp
    then have "(u + 1) * d \<le> q * d" using assms(1) by (intro mult_right_mono) simp_all
    then show False using n r assms by (simp add: algebra_simps)
  qed
  have up: "q + 1 \<le> u" if "0 < r"
  proof (rule ccontr)
    assume "\<not> q + 1 \<le> u"
    then have "q = u" using qu by simp
    then show False using n that assms(2) by simp
  qed
  show ?thesis
    using qu up r unfolding round_half_even_def Let_def q_def[symmetric] r_def[symmetric]
    by (auto simp: assms(1))
qed

lemma round_half_even_gt:
  assumes "0 < d" "d < 2 * (n - l * d)"
  shows "l < round_half_even n d"
proof -
  define q r where "q = n div d" and "r = n mod d"
  have n: "n = q * d + r" and r: "0 \<le> r" "r < d"
    using assms(1) by (simp_all add: q_def r_def)
  have lq: "l \<le> q"
  proof (rule ccontr)
    assume "\<not> l \<le> q"
    then have "q + 1 \<le> l" by simp
    then have "(q + 1) * d \<le> l * d" using assms(1) by (intro mult_right_mono) simp_all
    then show False using n r assms by (simp add: algebra_simps)
  qed
  have up: "d < 2 * r" if "q = l"
    using assms(2) n that by simp
  show ?thesis
  proof (cases "q = l")
    case True
    then show ?thesis
      using up unfolding round_half_even_def Let_def q_def[symmetric] r_def[symmetric]
      by simp
  next
    case False
    then have "l < q" using lq by simp
    then show ?thesis
      unfolding round_half_even_def Let_def q_def[symmetric] r_def[symmetric]
      by simp
  qed
qed

lemma round_half_even_exact:
  assumes "0 < d" "d dvd n"
  shows "round_half_even n d = n div d"
  using assms by (simp add: round_half_even_def Let_def)


lemma ulps_per_unit_pos: "0 < ulps_per_unit"
  by (simp add: ulps_per_unit_def)

lemma double_of_ratio_ceiling:
  assumes "0 < a" "a < 2 ^ 53" "0 < b" "b < 2 ^ 53"
  shows "\<exists>x. double_of_ratio a b = Inr x \<and> \<lceil>x\<rceil> = \<lceil>real_of_int a / real_of_int b\<rceil>"
proof -
  define P where "P = ulps_per_unit"
  define m where "m = (a * P) div b"
  define s where "s = nat (bitlen m - 53)"
  define n where "n = round_half_even (a * P) (b * 2 ^ s)"
  define c where "c = \<lceil>real_of_int a / real_of_int b\<rceil>"
  have P: "0 < P" "P = 2 ^ 1074" by (simp_all add: P_def ulps_per_unit_def)
  have small: "(2 :: int) ^ 53 \<le> P"
    unfolding P(2) by (rule power_increasing) simp_all
  have top: "2 ^ 53 * P = 2 ^ nat 1127" "2 ^ 53 * P < overflow_ulps"
    by (simp_all add: P(2) overflow_ulps_def flip: power_add)
  \<comment> \<open>the ceiling, as two products\<close>
  have "real_of_int c - 1 < real_of_int a / real_of_int b"
    and "real_of_int a / real_of_int b \<le> real_of_int c"
    unfolding c_def by linarith+
  then have "real_of_int ((c - 1) * b) < real_of_int a" "real_of_int a \<le> real_of_int (c * b)"
    using assms(3) by (simp_all add: field_simps)
  then have c: "(c - 1) * b < a" "a \<le> c * b"
    by linarith+
  have c1: "1 \<le> c"
  proof (rule ccontr)
    assume "\<not> 1 \<le> c"
    then have "c \<le> 0" by simp
    then have "c * b \<le> 0 * b" using assms(3) by (intro mult_right_mono) simp_all
    then show False using c(2) assms(1) by simp
  qed
  have ca: "c \<le> a"
  proof -
    have "(c - 1) * 1 \<le> (c - 1) * b" using c1 assms(3) by (intro mult_left_mono) simp_all
    then show ?thesis using c(1) by simp
  qed
  \<comment> \<open>the size of the quotient in ulps\<close>
  have mb: "m * b \<le> a * P"
  proof -
    have "a * P = m * b + (a * P) mod b" by (simp add: m_def)
    moreover have "0 \<le> (a * P) mod b" using assms(3) by simp
    ultimately show ?thesis by linarith
  qed
  have m_pos: "0 < m"
  proof -
    have "b * 1 \<le> P * a"
      using assms(1,4) small P(1) by (intro mult_mono) simp_all
    then show ?thesis
      unfolding m_def using assms(3) by (simp add: pos_imp_zdiv_pos_iff mult.commute)
  qed
  have aP: "a * P < 2 ^ 53 * P"
    using assms(2) P(1) by simp
  have s_le: "s \<le> 1074"
  proof -
    have "m \<le> a * P"
      using mb assms(3) m_pos
      by (smt (verit, best) mult_le_cancel_left1 mult.commute)
    then have "m < 2 ^ 53 * P" using aP by (rule le_less_trans)
    then have "m < 2 ^ nat 1127" by (simp only: top(1))
    then have "bitlen m \<le> 1127"
      by (simp add: bitlen_le_iff_power)
    then show ?thesis by (simp add: s_def)
  qed
  have D: "b * 2 ^ s < 2 * P"
  proof (cases "bitlen m \<le> 53")
    case True
    then have "s = 0" by (simp add: s_def)
    then show ?thesis using assms(4) small P(1) by simp
  next
    case False
    then have s: "int s = bitlen m - 53" by (simp add: s_def)
    have "2 ^ nat (bitlen m - 1) \<le> m" using bitlen_bounds[OF m_pos] by simp
    moreover have "nat (bitlen m - 1) = s + 52" using s by linarith
    ultimately have "2 ^ (s + 52) \<le> m" by simp
    then have "2 ^ (s + 52) * b \<le> m * b" using assms(3) by simp
    then have "2 ^ (s + 52) * b \<le> a * P"
      using mb by (rule order_trans)
    then have "2 ^ (s + 52) * b < 2 ^ 53 * P"
      using aP by (rule le_less_trans)
    then have "2 ^ 52 * (b * 2 ^ s) < 2 ^ 52 * (2 * P)"
      by (simp add: power_add algebra_simps)
    then show ?thesis by simp
  qed
  define Q :: int where "Q = 2 ^ (1074 - s)"
  have PQ: "P = Q * 2 ^ s"
    using s_le by (simp add: P(2) Q_def flip: power_add)
  have dpos: "0 < b * 2 ^ s" using assms(3) by simp
  have upper: "n \<le> c * Q"
    unfolding n_def
  proof (rule round_half_even_le[OF dpos])
    have "a * P \<le> c * b * P" using c(2) P(1) by simp
    then show "a * P \<le> c * Q * (b * 2 ^ s)" by (simp add: PQ algebra_simps)
  qed
  have lower: "(c - 1) * Q < n"
    unfolding n_def
  proof (rule round_half_even_gt[OF dpos])
    have "1 * P \<le> (a - (c - 1) * b) * P"
      using c(1) P(1) by (intro mult_right_mono) simp_all
    then have "2 * P \<le> 2 * (a * P - (c - 1) * Q * (b * 2 ^ s))"
      by (simp add: PQ algebra_simps)
    then show "b * 2 ^ s < 2 * (a * P - (c - 1) * Q * (b * 2 ^ s))"
      using D by linarith
  qed
  define k where "k = n * 2 ^ s"
  have k_up: "k \<le> c * P"
  proof -
    have "n * 2 ^ s \<le> c * Q * 2 ^ s" using upper by simp
    then show ?thesis by (simp add: k_def PQ algebra_simps)
  qed
  have k_lo: "(c - 1) * P < k"
  proof -
    have "(c - 1) * Q * 2 ^ s < n * 2 ^ s" using lower by simp
    then show ?thesis by (simp add: k_def PQ algebra_simps)
  qed
  have "k \<le> a * P"
  proof -
    have "c * P \<le> a * P" using ca P(1) by simp
    then show ?thesis using k_up by simp
  qed
  then have "k < 2 ^ 53 * P" using aP by (rule le_less_trans)
  then have "k < overflow_ulps" using top(2) by (rule less_trans)
  then have no_overflow: "\<not> overflow_ulps \<le> k" by simp
  have val: "double_of_ratio a b = Inr (real_of_int k / real_of_int P)"
    using no_overflow
    by (simp add: double_of_ratio_def Let_def k_def n_def s_def m_def P_def)
  have "real_of_int c - 1 < real_of_int k / real_of_int P"
    "real_of_int k / real_of_int P \<le> real_of_int c"
  proof -
    have "real_of_int ((c - 1) * P) < real_of_int k" using k_lo by linarith
    then show "real_of_int c - 1 < real_of_int k / real_of_int P"
      using P(1) by (simp add: field_simps)
    have "real_of_int k \<le> real_of_int (c * P)" using k_up by linarith
    then show "real_of_int k / real_of_int P \<le> real_of_int c"
      using P(1) by (simp add: field_simps)
  qed
  then have "\<lceil>real_of_int k / real_of_int P\<rceil> = c"
    by (simp add: ceiling_eq_iff)
  with val show ?thesis by (simp add: c_def)
qed


lemma double_of_ratio_half:
  assumes "0 < a" "a < 2 ^ 53"
  shows "double_of_ratio a 2 = Inr (real_of_int a / 2)"
proof -
  define P where "P = ulps_per_unit"
  define H :: int where "H = 2 ^ 1073"
  have P: "0 < P" "P = 2 * H" "0 < H"
    by (simp_all add: P_def H_def ulps_per_unit_def flip: power_Suc)
  define m where "m = (a * P) div 2"
  define s where "s = nat (bitlen m - 53)"
  have m: "m = a * H" by (simp add: m_def P(2))
  have bl: "bitlen m = bitlen a + 1073"
    unfolding m H_def using bitlen_pow2[OF assms(1), of 1073] by (simp only: of_nat_numeral)
  have ba: "1 \<le> bitlen a" "bitlen a \<le> 53"
  proof -
    show "1 \<le> bitlen a"
      using assms(1) bitlen_eq_zero_iff[of a] bitlen_nonneg[of a] by linarith
    have "a < 2 ^ nat 53" using assms(2) by simp
    then show "bitlen a \<le> 53" by (simp add: bitlen_le_iff_power)
  qed
  have s: "s = nat (bitlen a) + 1020"
    using ba by (simp add: s_def bl nat_add_distrib)
  define t where "t = 53 - nat (bitlen a)"
  have st: "s + t = 1073" using ba by (simp add: s t_def)
  have H2: "H = 2 ^ t * 2 ^ s"
    by (simp add: H_def st add.commute flip: power_add)
  have dv: "2 * 2 ^ s dvd a * P"
    by (simp add: P(2) H2)
  have n: "round_half_even (a * P) (2 * 2 ^ s) = a * 2 ^ t"
  proof -
    have "a * P = (a * 2 ^ t) * (2 * 2 ^ s)" by (simp add: P(2) H2)
    moreover have "(a * 2 ^ t) * (2 * 2 ^ s) div (2 * 2 ^ s) = a * 2 ^ t"
      by (rule nonzero_mult_div_cancel_right) simp
    ultimately have "(a * P) div (2 * 2 ^ s) = a * 2 ^ t" by (simp only:)
    then show ?thesis using round_half_even_exact[OF _ dv] by simp
  qed
  have k: "a * 2 ^ t * 2 ^ s = a * H" by (simp add: H2)
  have "a * H < 2 ^ 53 * H" using assms(2) P(3) by simp
  also have "\<dots> \<le> overflow_ulps"
    by (simp add: H_def overflow_ulps_def flip: power_add)
  finally have no: "\<not> overflow_ulps \<le> a * H" by simp
  have "double_of_ratio a 2 = Inr (real_of_int (a * H) / real_of_int P)"
    using no
    by (simp add: double_of_ratio_def Let_def P_def[symmetric] m_def[symmetric]
          s_def[symmetric] n k)
  also have "real_of_int (a * H) / real_of_int P = real_of_int a / 2"
    using P(3) by (simp add: P(2))
  finally show ?thesis .
qed

lemma py_truediv_ceiling:
  assumes "0 < a" "a < 2 ^ 53" "0 < b" "b < 2 ^ 53"
  shows "\<exists>x. py_truediv a b = Inr x \<and> \<lceil>x\<rceil> = \<lceil>real_of_int a / real_of_int b\<rceil>"
  using double_of_ratio_ceiling[OF assms] assms(1,3)
  by (auto simp: py_truediv_def)

lemma py_truediv_half:
  assumes "\<bar>v\<bar> < 2 ^ 53"
  shows "py_truediv v 2 = Inr (real_of_int v / 2)"
proof (cases "v = 0")
  case True
  then show ?thesis by (simp add: py_truediv_def)
next
  case False
  then have "0 < \<bar>v\<bar>" by simp
  from double_of_ratio_half[OF this assms]
  show ?thesis using False by (auto simp: py_truediv_def abs_if)
qed

section \<open>The loops compute the sums\<close>

lemma for_each_accum:
  assumes "\<And>i s. i \<in> set xs \<Longrightarrow> self s = e \<Longrightarrow> input_image s = img \<Longrightarrow>
             body i s = Inr (s\<lparr>current_sum := f (current_sum s) i\<rparr>)"
    and "self s = e" and "input_image s = img"
  shows "for_each xs body s = Inr (s\<lparr>current_sum := foldl f (current_sum s) xs\<rparr>)"
  using assms
proof (induction xs arbitrary: s)
  case Nil
  then show ?case by simp
next
  case (Cons i rest)
  have step: "body i s = Inr (s\<lparr>current_sum := f (current_sum s) i\<rparr>)"
    using Cons.prems by simp
  have "for_each rest body (s\<lparr>current_sum := f (current_sum s) i\<rparr>) =
        Inr (s\<lparr>current_sum := f (current_sum s) i\<rparr>
               \<lparr>current_sum := foldl f (current_sum (s\<lparr>current_sum := f (current_sum s) i\<rparr>)) rest\<rparr>)"
    by (rule Cons.IH) (use Cons.prems in simp_all)
  with step show ?case by simp
qed

lemma getitem_nat: "i < length xs \<Longrightarrow> getitem xs (int i) = Inr (xs ! i)"
  by (simp add: getitem_def)

lemma getitem_in: "0 \<le> i \<Longrightarrow> i < int (length xs) \<Longrightarrow> getitem xs i = Inr (xs ! nat i)"
  by (simp add: getitem_def)

lemma tensor_shape_nth:
  "tensor_shape c h w t \<Longrightarrow> i < c \<Longrightarrow> length (t ! i) = h"
  "tensor_shape c h w t \<Longrightarrow> i < c \<Longrightarrow> j < h \<Longrightarrow> length (t ! i ! j) = w"
  by (auto simp: tensor_shape_def all_set_conv_all_nth)

lemma weights_ok_nth:
  assumes "weights_ok e" "int oc < output_channels e"
  shows "oc < length (kernel_weights e)"
    and "int (length (kernel_weights e ! oc)) = input_channels e"
    and "int ic < input_channels e \<Longrightarrow> int (length (kernel_weights e ! oc ! ic)) = kernel_size e"
    and "int ic < input_channels e \<Longrightarrow> int kh < kernel_size e \<Longrightarrow>
           int (length (kernel_weights e ! oc ! ic ! kh)) = kernel_size e"
proof -
  let ?W = "kernel_weights e"
  show oc: "oc < length ?W"
    using assms by (simp add: weights_ok_def)
  have l1: "\<forall>i<length ?W. int (length (?W ! i)) = input_channels e \<and>
          (\<forall>j<length (?W ! i). int (length (?W ! i ! j)) = kernel_size e \<and>
             (\<forall>k<length (?W ! i ! j). int (length (?W ! i ! j ! k)) = kernel_size e))"
    using assms(1) by (simp add: weights_ok_def all_set_conv_all_nth)
  show c: "int (length (?W ! oc)) = input_channels e"
    using l1 oc by blast
  {
    assume ic: "int ic < input_channels e"
    then have ic': "ic < length (?W ! oc)" using c by linarith
    show h: "int (length (?W ! oc ! ic)) = kernel_size e"
      using l1 oc ic' by blast
    assume "int kh < kernel_size e"
    then have "kh < length (?W ! oc ! ic)" using h by linarith
    then show "int (length (?W ! oc ! ic ! kh)) = kernel_size e"
      using l1 oc ic' by blast
  }
qed

lemma accumulate_ok:
  fixes s :: "('a::{zero,plus,times}) store"
  assumes "self s = e" "input_image s = img" "weights_ok e"
    and "tensor_shape (nat (input_channels e)) (nat (input_height d)) (nat (input_width d)) img"
    and "int oc < output_channels e" "int ic < input_channels e"
    and "int kh < kernel_size e" "int kw < kernel_size e"
  shows "accumulate d oc oh ow ic kh kw s =
           Inr (s\<lparr>current_sum := current_sum s + cell_term e d img oc oh ow ic kh kw\<rparr>)"
proof -
  have w: "getitem4 (kernel_weights e) (int oc) (int ic) (int kh) (int kw) =
             Inr (kernel_weights e ! oc ! ic ! kh ! kw)"
  proof -
    note n = weights_ok_nth[OF assms(3,5)]
    have 1: "oc < length (kernel_weights e)" by (rule n(1))
    have 2: "ic < length (kernel_weights e ! oc)" using n(2) assms(6) by linarith
    have 3: "kh < length (kernel_weights e ! oc ! ic)"
      using n(3)[OF assms(6)] assms(7) by linarith
    have 4: "kw < length (kernel_weights e ! oc ! ic ! kh)"
      using n(4)[OF assms(6,7)] assms(8) by linarith
    show ?thesis using 1 2 3 4 by (simp add: getitem4_def getitem3_def getitem_nat)
  qed
  define h where "h = h_idx e d oh kh"
  define w' where "w' = w_idx e d ow kw"
  show ?thesis
  proof (cases "in_bounds d h w'")
    case True
    have hw: "0 \<le> h" "h < input_height d" "0 \<le> w'" "w' < input_width d"
      using True by (simp_all add: in_bounds_def)
    have ic: "ic < length img" "ic < nat (input_channels e)"
      using assms(4,6) by (auto simp: tensor_shape_def)
    have lh: "length (img ! ic) = nat (input_height d)"
      using tensor_shape_nth(1)[OF assms(4) ic(2)] .
    have lw: "length (img ! ic ! nat h) = nat (input_width d)"
      using tensor_shape_nth(2)[OF assms(4) ic(2), of "nat h"] hw by simp
    have g: "getitem3 img (int ic) h w' = Inr (img ! ic ! nat h ! nat w')"
      using ic lh lw hw by (simp add: getitem3_def getitem_nat getitem_in)
    show ?thesis
      using True g w assms(1,2)
      by (simp add: accumulate_def cell_term_def sample_def Let_def flip: h_def w'_def)
  next
    case False
    then show ?thesis
      using w assms(1,2)
      by (simp add: accumulate_def cell_term_def sample_def Let_def flip: h_def w'_def)
  qed
qed

lemma foldl_concat_map:
  "foldl f a (concat (map g xs)) = foldl (\<lambda>acc x. foldl f acc (g x)) a xs"
  by (induction xs arbitrary: a) simp_all

lemma in_py_range: "i \<in> set (py_range n) \<longleftrightarrow> int i < n"
  by (auto simp: py_range_def)

lemma loop_k_w_ok:
  fixes s :: "('a::{zero,plus,times}) store"
  assumes "self s = e" "input_image s = img" "weights_ok e"
    and "tensor_shape (nat (input_channels e)) (nat (input_height d)) (nat (input_width d)) img"
    and "int oc < output_channels e" "int ic < input_channels e" "int kh < kernel_size e"
  shows "loop_k_w d oc oh ow ic kh s =
           Inr (s\<lparr>current_sum := foldl (+) (current_sum s)
                  (map (cell_term e d img oc oh ow ic kh) [0..<nat (kernel_size e)])\<rparr>)"
proof -
  have "for_each (py_range (kernel_size e)) (accumulate d oc oh ow ic kh) s =
          Inr (s\<lparr>current_sum := foldl (\<lambda>acc kw. acc + cell_term e d img oc oh ow ic kh kw)
                  (current_sum s) (py_range (kernel_size e))\<rparr>)"
    by (rule for_each_accum[where e = e and img = img])
       (simp_all add: accumulate_ok assms in_py_range)
  then show ?thesis
    using assms(1) by (simp add: loop_k_w_def foldl_map py_range_def)
qed

lemma loop_k_h_ok:
  fixes s :: "('a::{zero,plus,times}) store"
  assumes "self s = e" "input_image s = img" "weights_ok e"
    and "tensor_shape (nat (input_channels e)) (nat (input_height d)) (nat (input_width d)) img"
    and "int oc < output_channels e" "int ic < input_channels e"
  shows "loop_k_h d oc oh ow ic s =
           Inr (s\<lparr>current_sum := foldl (+) (current_sum s)
                  [cell_term e d img oc oh ow ic kh kw.
                     kh \<leftarrow> [0..<nat (kernel_size e)], kw \<leftarrow> [0..<nat (kernel_size e)]]\<rparr>)"
proof -
  have "for_each (py_range (kernel_size e)) (loop_k_w d oc oh ow ic) s =
          Inr (s\<lparr>current_sum :=
                 foldl (\<lambda>acc kh. foldl (+) acc
                          (map (cell_term e d img oc oh ow ic kh) [0..<nat (kernel_size e)]))
                  (current_sum s) (py_range (kernel_size e))\<rparr>)"
    by (rule for_each_accum[where e = e and img = img])
       (simp_all add: loop_k_w_ok assms in_py_range)
  then show ?thesis
    using assms(1) by (simp add: loop_k_h_def foldl_concat_map py_range_def)
qed

lemma loop_in_c_ok:
  fixes s :: "('a::{zero,plus,times}) store"
  assumes "self s = e" "input_image s = img" "weights_ok e"
    and "tensor_shape (nat (input_channels e)) (nat (input_height d)) (nat (input_width d)) img"
    and "int oc < output_channels e"
  shows "loop_in_c d oc oh ow s =
           Inr (s\<lparr>current_sum := foldl (+) (current_sum s)
                  [cell_term e d img oc oh ow ic kh kw.
                     ic \<leftarrow> [0..<nat (input_channels e)],
                     kh \<leftarrow> [0..<nat (kernel_size e)], kw \<leftarrow> [0..<nat (kernel_size e)]]\<rparr>)"
proof -
  have "for_each (py_range (input_channels e)) (loop_k_h d oc oh ow) s =
          Inr (s\<lparr>current_sum :=
                 foldl (\<lambda>acc ic. foldl (+) acc
                          [cell_term e d img oc oh ow ic kh kw.
                             kh \<leftarrow> [0..<nat (kernel_size e)], kw \<leftarrow> [0..<nat (kernel_size e)]])
                  (current_sum s) (py_range (input_channels e))\<rparr>)"
    by (rule for_each_accum[where e = e and img = img])
       (simp_all add: loop_k_h_ok assms in_py_range)
  then show ?thesis
    using assms(1) by (simp add: loop_in_c_def foldl_concat_map py_range_def)
qed

lemma compute_cell_ok:
  fixes s :: "('a::{zero,plus,times}) store"
  assumes "self s = e" "input_image s = img" "weights_ok e"
    and "tensor_shape (nat (input_channels e)) (nat (input_height d)) (nat (input_width d)) img"
    and "int oc < output_channels e"
    and "oc < length (output_image s)" "oh < length (output_image s ! oc)"
        "ow < length (output_image s ! oc ! oh)"
  shows "compute_cell d oc oh ow s =
           Inr (s\<lparr>current_sum := cell_sum e d img oc oh ow,
                  output_image := (output_image s)[oc := (output_image s ! oc)[oh :=
                     (output_image s ! oc ! oh)[ow := cell_sum e d img oc oh ow]]]\<rparr>)"
proof -
  have "loop_in_c d oc oh ow (s\<lparr>current_sum := 0\<rparr>) =
          Inr (s\<lparr>current_sum := 0\<rparr>\<lparr>current_sum := cell_sum e d img oc oh ow\<rparr>)"
    using loop_in_c_ok[of "s\<lparr>current_sum := 0\<rparr>" e img d oc oh ow] assms(1-5)
    by (simp add: cell_sum_def)
  then show ?thesis
    using assms(6-8) by (simp add: compute_cell_def store_cell_def Let_def)
qed

lemma for_each_invariant:
  assumes "I 0 s"
    and "\<And>i s. i < n \<Longrightarrow> I i s \<Longrightarrow> \<exists>s'. body i s = Inr s' \<and> I (Suc i) s'"
  shows "\<exists>s'. for_each [0..<n] body s = Inr s' \<and> I n s'"
proof -
  have "i \<le> n \<Longrightarrow> I i s \<Longrightarrow> \<exists>s'. for_each [i..<n] body s = Inr s' \<and> I n s'" for i s
  proof (induction "n - i" arbitrary: i s)
    case 0
    then show ?case by simp
  next
    case (Suc k)
    then have lt: "i < n" by simp
    obtain s1 where s1: "body i s = Inr s1" "I (Suc i) s1"
      using assms(2)[OF lt Suc.prems(2)] by blast
    have "\<exists>s'. for_each [Suc i..<n] body s1 = Inr s' \<and> I n s'"
      by (rule Suc.hyps(1)) (use Suc.hyps(2) lt s1 in simp_all)
    then show ?case
      using s1(1) lt by (simp add: upt_conv_Cons)
  qed
  from this[of 0 s] assms(1) show ?thesis by simp
qed

lemma tensor_shape_update:
  assumes "tensor_shape C H W t" "c < C" "h < H"
  shows "tensor_shape C H W (t[c := (t ! c)[h := (t ! c ! h)[w := v]]])"
  using assms
  by (auto simp: tensor_shape_def all_set_conv_all_nth nth_list_update)

lemma nth_update3:
  assumes "tensor_shape C H W t" "c < C" "h < H" "w < W" "c' < C" "h' < H" "w' < W"
  shows "t[c := (t ! c)[h := (t ! c ! h)[w := v]]] ! c' ! h' ! w' =
           (if c' = c \<and> h' = h \<and> w' = w then v else t ! c' ! h' ! w')"
  using assms
  by (auto simp: tensor_shape_def all_set_conv_all_nth nth_list_update)

lemma compute_cell_filled:
  fixes s :: "('a::{zero,plus,times}) store"
  assumes "filled e d img c h w s" "weights_ok e"
    and "tensor_shape (nat (input_channels e)) (nat (input_height d)) (nat (input_width d)) img"
    and "c < nat (output_channels e)" "h < nat (output_height d)" "w < nat (output_width d)"
  shows "\<exists>s'. compute_cell d c h w s = Inr s' \<and> filled e d img c h (Suc w) s'"
proof -
  let ?t = "output_image s"
  have sh: "tensor_shape (nat (output_channels e)) (nat (output_height d)) (nat (output_width d)) ?t"
    and se: "self s = e" and si: "input_image s = img"
    using assms(1) by (simp_all add: filled_def)
  have l: "c < length ?t" "h < length (?t ! c)" "w < length (?t ! c ! h)"
    using sh assms(4-6) tensor_shape_nth[OF sh] by (simp_all add: tensor_shape_def)
  have oc: "int c < output_channels e" using assms(4) by simp
  note cc = compute_cell_ok[OF se si assms(2,3) oc l]
  have "filled e d img c h (Suc w)
          (s\<lparr>current_sum := cell_sum e d img c h w,
              output_image := ?t[c := (?t ! c)[h := (?t ! c ! h)[w := cell_sum e d img c h w]]]\<rparr>)"
    unfolding filled_def
  proof (intro conjI allI impI)
    fix c' h' w'
    assume b: "c' < nat (output_channels e)" "h' < nat (output_height d)"
      "w' < nat (output_width d)"
      and before: "c' < c \<or> c' = c \<and> (h' < h \<or> h' = h \<and> w' < Suc w)"
    have old: "\<not> (c' = c \<and> h' = h \<and> w' = w) \<Longrightarrow>
                 ?t ! c' ! h' ! w' = cell_sum e d img c' h' w'"
      using assms(1) b before unfolding filled_def by (metis less_Suc_eq)
    show "output_image (s\<lparr>current_sum := cell_sum e d img c h w,
              output_image := ?t[c := (?t ! c)[h := (?t ! c ! h)[w := cell_sum e d img c h w]]]\<rparr>)
            ! c' ! h' ! w' = cell_sum e d img c' h' w'"
      using nth_update3[OF sh assms(4-6) b] old by auto
  qed (simp_all add: se si tensor_shape_update[OF sh assms(4,5)])
  with cc show ?thesis by blast
qed

lemma filled_self: "filled e d img c h w s \<Longrightarrow> self s = e"
  by (simp add: filled_def)

lemma filled_row_done:
  "filled e d img c h (nat (output_width d)) s \<Longrightarrow> filled e d img c (Suc h) 0 s"
  unfolding filled_def by (auto simp: less_Suc_eq)

lemma filled_channel_done:
  "filled e d img c (nat (output_height d)) 0 s \<Longrightarrow> filled e d img (Suc c) 0 0 s"
  unfolding filled_def by (auto simp: less_Suc_eq)

lemma loop_out_w_filled:
  fixes s :: "('a::{zero,plus,times}) store"
  assumes "filled e d img c h 0 s" "weights_ok e"
    and "tensor_shape (nat (input_channels e)) (nat (input_height d)) (nat (input_width d)) img"
    and "c < nat (output_channels e)" "h < nat (output_height d)"
  shows "\<exists>s'. loop_out_w d c h s = Inr s' \<and> filled e d img c (Suc h) 0 s'"
proof -
  have "\<exists>s'. for_each [0..<nat (output_width d)] (compute_cell d c h) s = Inr s' \<and>
          filled e d img c h (nat (output_width d)) s'"
    by (rule for_each_invariant[where I = "\<lambda>w. filled e d img c h w"])
       (use assms compute_cell_filled in blast)+
  then show ?thesis
    by (auto simp: loop_out_w_def py_range_def dest: filled_row_done)
qed

lemma loop_out_h_filled:
  fixes s :: "('a::{zero,plus,times}) store"
  assumes "filled e d img c 0 0 s" "weights_ok e"
    and "tensor_shape (nat (input_channels e)) (nat (input_height d)) (nat (input_width d)) img"
    and "c < nat (output_channels e)"
  shows "\<exists>s'. loop_out_h d c s = Inr s' \<and> filled e d img (Suc c) 0 0 s'"
proof -
  have "\<exists>s'. for_each [0..<nat (output_height d)] (loop_out_w d c) s = Inr s' \<and>
          filled e d img c (nat (output_height d)) 0 s'"
    by (rule for_each_invariant[where I = "\<lambda>h. filled e d img c h 0"])
       (use assms loop_out_w_filled in blast)+
  then show ?thesis
    by (auto simp: loop_out_h_def py_range_def dest: filled_channel_done)
qed

lemma loop_out_c_filled:
  fixes s :: "('a::{zero,plus,times}) store"
  assumes "filled e d img 0 0 0 s" "weights_ok e"
    and "tensor_shape (nat (input_channels e)) (nat (input_height d)) (nat (input_width d)) img"
  shows "\<exists>s'. loop_out_c d s = Inr s' \<and> filled e d img (nat (output_channels e)) 0 0 s'"
proof -
  have "\<exists>s'. for_each [0..<nat (output_channels e)] (loop_out_h d) s = Inr s' \<and>
          filled e d img (nat (output_channels e)) 0 0 s'"
    by (rule for_each_invariant[where I = "\<lambda>c. filled e d img c 0 0"])
       (use assms loop_out_h_filled in blast)+
  then show ?thesis
    using filled_self[OF assms(1)] by (simp add: loop_out_c_def py_range_def)
qed

lemma tensor_shape_eq:
  assumes "tensor_shape C H W t"
    and "\<And>c h w. c < C \<Longrightarrow> h < H \<Longrightarrow> w < W \<Longrightarrow> t ! c ! h ! w = f c h w"
  shows "t = map (\<lambda>c. map (\<lambda>h. map (\<lambda>w. f c h w) [0..<W]) [0..<H]) [0..<C]"
proof (rule nth_equalityI)
  show "length t = length (map (\<lambda>c. map (\<lambda>h. map (\<lambda>w. f c h w) [0..<W]) [0..<H]) [0..<C])"
    using assms(1) by (simp add: tensor_shape_def)
next
  fix c assume "c < length t"
  then have c: "c < C" using assms(1) by (simp add: tensor_shape_def)
  have "t ! c = map (\<lambda>h. map (\<lambda>w. f c h w) [0..<W]) [0..<H]"
  proof (rule nth_equalityI)
    show "length (t ! c) = length (map (\<lambda>h. map (\<lambda>w. f c h w) [0..<W]) [0..<H])"
      using tensor_shape_nth(1)[OF assms(1) c] by simp
  next
    fix h assume "h < length (t ! c)"
    then have h: "h < H" using tensor_shape_nth(1)[OF assms(1) c] by simp
    have "t ! c ! h = map (\<lambda>w. f c h w) [0..<W]"
      by (rule nth_equalityI)
         (use tensor_shape_nth(2)[OF assms(1) c h] assms(2)[OF c h] in simp_all)
    then show "t ! c ! h = map (\<lambda>h. map (\<lambda>w. f c h w) [0..<W]) [0..<H] ! h"
      using h by simp
  qed
  then show "t ! c = map (\<lambda>c. map (\<lambda>h. map (\<lambda>w. f c h w) [0..<W]) [0..<H]) [0..<C] ! c"
    using c by simp
qed

lemma filled_all:
  assumes "filled e d img (nat (output_channels e)) 0 0 s"
  shows "output_image s = conv_spec e d img"
  unfolding conv_spec_def
  by (rule tensor_shape_eq) (use assms in \<open>auto simp: filled_def\<close>)

lemma tensor_shape_zeros: "tensor_shape (nat oc) (nat oh) (nat ow) (zeros oc oh ow)"
  by (simp add: tensor_shape_def zeros_def py_range_def)

lemma filled_start:
  "filled e d img 0 0 0
     (s\<lparr>self := e, input_image := img,
        output_image := zeros (output_channels e) (output_height d) (output_width d)\<rparr>)"
  by (simp add: filled_def tensor_shape_zeros)

lemma check_k_rows_None:
  "check_k_rows ks rows = None \<longleftrightarrow> (\<forall>r \<in> set rows. int (length r) = ks)"
  by (induction rows) auto

lemma check_ic_weights_None:
  "check_ic_weights ks xs = None \<longleftrightarrow>
     (\<forall>y \<in> set xs. int (length y) = ks \<and> (\<forall>r \<in> set y. int (length r) = ks))"
proof (induction xs)
  case Nil
  then show ?case by simp
next
  case (Cons y ys)
  show ?case
  proof (cases "check_k_rows ks y")
    case None
    then show ?thesis using Cons check_k_rows_None[of ks y] by simp
  next
    case (Some err)
    then have "\<not> (\<forall>r \<in> set y. int (length r) = ks)"
      using check_k_rows_None[of ks y] by simp
    then show ?thesis using Some by auto
  qed
qed

lemma check_oc_weights_None:
  "check_oc_weights ic ks w = None \<longleftrightarrow>
     (\<forall>x \<in> set w. int (length x) = ic \<and>
        (\<forall>y \<in> set x. int (length y) = ks \<and> (\<forall>r \<in> set y. int (length r) = ks)))"
proof (induction w)
  case Nil
  then show ?case by simp
next
  case (Cons x xs)
  show ?case
  proof (cases "check_ic_weights ks x")
    case None
    then show ?thesis using Cons check_ic_weights_None[of ks x] by simp
  next
    case (Some err)
    then have "\<not> (\<forall>y \<in> set x. int (length y) = ks \<and> (\<forall>r \<in> set y. int (length r) = ks))"
      using check_ic_weights_None[of ks x] by simp
    then show ?thesis using Some by auto
  qed
qed

lemma init_Inr:
  assumes "init ks st pm ic oc w = Inr e"
  shows "e = \<lparr>kernel_size = ks, stride = st, padding_mode = pm, input_channels = ic,
              output_channels = oc, kernel_weights = w\<rparr>"
    and "0 < ks" "0 < st" "pm = 0 \<or> pm = 1" "0 < ic" "0 < oc"
    and "weights_ok e"
proof -
  from assms have c: "0 < ks" "0 < st" "pm = 0 \<or> pm = 1" "0 < ic" "0 < oc"
      "int (length w) = oc" "check_oc_weights ic ks w = None"
    and e: "e = \<lparr>kernel_size = ks, stride = st, padding_mode = pm, input_channels = ic,
              output_channels = oc, kernel_weights = w\<rparr>"
    by (auto simp: init_def split: if_splits option.splits)
  show "e = \<lparr>kernel_size = ks, stride = st, padding_mode = pm, input_channels = ic,
              output_channels = oc, kernel_weights = w\<rparr>" by (rule e)
  show "0 < ks" "0 < st" "pm = 0 \<or> pm = 1" "0 < ic" "0 < oc" by (rule c)+
  show "weights_ok e"
    using c(6,7) unfolding weights_ok_def e by (simp add: check_oc_weights_None)
qed

lemma derive_dims_inputs:
  "derive_dims e ih iw = Inr d \<Longrightarrow> input_height d = ih \<and> input_width d = iw"
  by (auto simp: derive_dims_def split: if_splits sum.splits)

lemma rectangular_shape:
  assumes "rectangular img" "int (length img) = n"
  shows "tensor_shape (nat n) (nat (tensor_height img)) (nat (tensor_width img)) img"
  using assms unfolding rectangular_def tensor_shape_def by (metis nat_int)

lemma forward_run_ok:
  fixes s :: "('a::{zero,plus,times}) store"
  assumes "weights_ok (self s)" "rectangular (input_image s)" "\<not> tensor_empty (input_image s)"
    and "int (length (input_image s)) = input_channels (self s)"
    and "derive_dims (self s) (tensor_height (input_image s)) (tensor_width (input_image s)) = Inr d"
    and "0 < output_height d" "0 < output_width d"
  shows "\<exists>s'. forward_run s = Inr s' \<and> self s' = self s \<and> input_image s' = input_image s \<and>
           output_image s' = conv_spec (self s) d (input_image s)"
proof -
  let ?e = "self s" and ?img = "input_image s"
  let ?s0 = "s\<lparr>output_image := zeros (output_channels ?e) (output_height d) (output_width d)\<rparr>"
  obtain c0 cs r0 rs x xs where img: "?img = c0 # cs" "c0 = r0 # rs" "r0 = x # xs"
    using assms(3) by (auto simp: tensor_empty_def split: list.splits)
  have hw: "tensor_height ?img = int (length c0)" "tensor_width ?img = int (length r0)"
    using img by (simp_all add: tensor_height_def tensor_width_def)
  have run: "forward_run s = loop_out_c d ?s0"
    using img assms(4-7) hw by (simp add: forward_run_def)
  have inp: "input_height d = tensor_height ?img" "input_width d = tensor_width ?img"
    using derive_dims_inputs[OF assms(5)] by simp_all
  have sh: "tensor_shape (nat (input_channels ?e)) (nat (input_height d)) (nat (input_width d)) ?img"
    using rectangular_shape[OF assms(2,4)] inp by simp
  have "filled ?e d ?img 0 0 0 ?s0"
    using filled_start[of ?e d ?img s] by simp
  from loop_out_c_filled[OF this assms(1) sh]
  obtain s' where s': "loop_out_c d ?s0 = Inr s'"
    "filled ?e d ?img (nat (output_channels ?e)) 0 0 s'" by blast
  have "self s' = ?e" "input_image s' = ?img"
    using s'(2) by (simp_all add: filled_def)
  with s' run filled_all[OF s'(2)] show ?thesis by simp
qed

lemma forward_ok:
  fixes e :: "('a::{zero,plus,times}) ConvolutionLayer"
  assumes "weights_ok e" "rectangular img" "\<not> tensor_empty img"
    and "int (length img) = input_channels e"
    and "derive_dims e (tensor_height img) (tensor_width img) = Inr d"
    and "0 < output_height d" "0 < output_width d"
  shows "forward e img = Inr (conv_spec e d img)"
  using forward_run_ok[of "call_store e img" d] assms
  by (auto simp: forward_def call_store_def)

section \<open>The derived dimensions\<close>

lemma tensor_sizes_nonneg: "0 \<le> tensor_height img" "0 \<le> tensor_width img"
  by (simp_all add: tensor_height_def tensor_width_def split: list.split)

lemma py_truediv_ceiling_nonneg:
  assumes "0 \<le> a" "a < 2 ^ 53" "0 < b" "b < 2 ^ 53"
  shows "\<exists>x. py_truediv a b = Inr x \<and> \<lceil>x\<rceil> = \<lceil>real_of_int a / real_of_int b\<rceil>"
proof (cases "a = 0")
  case True
  then show ?thesis using assms(3) by (simp add: py_truediv_def)
next
  case False
  then have "0 < a" using assms(1) by simp
  then show ?thesis using assms(2,3,4) by (rule py_truediv_ceiling)
qed

lemma trunc_floor_max: "max 0 (py_int x) = max 0 \<lfloor>x\<rfloor>"
  by (auto simp: py_int_def max_def) linarith+

lemma same_padding_exact:
  assumes "padding_mode e \<noteq> 0"
    and "0 < stride e" "stride e < 2 ^ 53" "0 < kernel_size e" "kernel_size e < 2 ^ 53"
    and "0 \<le> n" "n < 2 ^ 53"
  shows "calculate_padding_amount e n (output_dim e n) = Inr (same_padding e n)"
proof -
  define c where "c = output_dim e n"
  define v where "v = (c - 1) * stride e + kernel_size e - n"
  have c: "c = \<lceil>real_of_int n / real_of_int (stride e)\<rceil>"
    using assms(1) by (simp add: c_def output_dim_def)
  have "real_of_int c - 1 < real_of_int n / real_of_int (stride e)"
    unfolding c by linarith
  then have "real_of_int ((c - 1) * stride e) < real_of_int n"
    using assms(2) by (simp add: field_simps)
  then have below: "(c - 1) * stride e < n" by linarith
  have "0 \<le> real_of_int n / real_of_int (stride e)"
    using assms(2,6) by simp
  then have "- 1 < real_of_int n / real_of_int (stride e)"
    by linarith
  then have c0: "0 \<le> c"
    unfolding c by (simp only: zero_le_ceiling)
  have up: "v < 2 ^ 53"
    using below assms(5) by (simp add: v_def)
  have lo: "- (2 ^ 53) < v"
  proof (cases "c = 0")
    case True
    have "real_of_int n / real_of_int (stride e) \<le> real_of_int c"
      unfolding c by linarith
    then have "real_of_int n \<le> real_of_int (c * stride e)"
      using assms(2) by (simp add: field_simps)
    then have "n \<le> 0" using True by simp
    then show ?thesis using True assms(3,4) by (simp add: v_def)
  next
    case False
    then have "0 \<le> c - 1" using c0 by simp
    then have "0 \<le> (c - 1) * stride e" using assms(2) by simp
    then show ?thesis using assms(4,7) by (simp add: v_def)
  qed
  have "py_truediv v 2 = Inr (real_of_int v / 2)"
    by (rule py_truediv_half) (use up lo in simp)
  then show ?thesis
    by (simp add: calculate_padding_amount_def same_padding_def trunc_floor_max
          flip: c_def v_def)
qed

lemma derive_dims_constructed:
  assumes "0 < stride e" "0 < kernel_size e" "padding_mode e = 0 \<or> padding_mode e = 1"
    and "padding_mode e = 0 \<or>
         (stride e < 2 ^ 53 \<and> kernel_size e < 2 ^ 53 \<and> ih < 2 ^ 53 \<and> iw < 2 ^ 53)"
    and "0 \<le> ih" "0 \<le> iw"
  shows "\<exists>d. derive_dims e ih iw = Inr d \<and> input_height d = ih \<and> input_width d = iw \<and>
           output_height d = output_dim e ih \<and> output_width d = output_dim e iw \<and>
           padding_h d = (if padding_mode e = 0 then 0 else same_padding e ih) \<and>
           padding_w d = (if padding_mode e = 0 then 0 else same_padding e iw)"
proof (cases "padding_mode e = 0")
  case True
  then show ?thesis
    using assms(1)
    by (simp add: derive_dims_def output_dim_def floor_divide_of_int_eq del: of_int_diff)
next
  case False
  then have pm: "padding_mode e = 1" and small: "stride e < 2 ^ 53" "kernel_size e < 2 ^ 53"
    "ih < 2 ^ 53" "iw < 2 ^ 53"
    using assms(3,4) by simp_all
  obtain qh where qh: "py_truediv ih (stride e) = Inr qh"
    "\<lceil>qh\<rceil> = \<lceil>real_of_int ih / real_of_int (stride e)\<rceil>"
    using py_truediv_ceiling_nonneg[OF assms(5) small(3) assms(1) small(1)] by blast
  obtain qw where qw: "py_truediv iw (stride e) = Inr qw"
    "\<lceil>qw\<rceil> = \<lceil>real_of_int iw / real_of_int (stride e)\<rceil>"
    using py_truediv_ceiling_nonneg[OF assms(6) small(4) assms(1) small(1)] by blast
  have oh: "math_ceil qh = output_dim e ih" and ow: "math_ceil qw = output_dim e iw"
    using qh(2) qw(2) False by (simp_all add: math_ceil_def output_dim_def)
  note ph = same_padding_exact[OF False assms(1) small(1) assms(2) small(2) assms(5) small(3)]
  note pw = same_padding_exact[OF False assms(1) small(1) assms(2) small(2) assms(6) small(4)]
  show ?thesis
    using False pm by (simp add: derive_dims_def qh(1) qw(1) oh ow ph pw)
qed

lemma derive_dims_layer:
  assumes "init ks st pm ic oc wts = Inr e" "exact_sizes e img"
  shows "\<exists>d. derive_dims e (tensor_height img) (tensor_width img) = Inr d \<and>
           input_height d = tensor_height img \<and> input_width d = tensor_width img \<and>
           output_height d = output_dim e (tensor_height img) \<and>
           output_width d = output_dim e (tensor_width img) \<and>
           padding_h d = (if padding_mode e = 0 then 0 else same_padding e (tensor_height img)) \<and>
           padding_w d = (if padding_mode e = 0 then 0 else same_padding e (tensor_width img))"
proof -
  note c = init_Inr[OF assms(1)]
  have "0 < stride e" "0 < kernel_size e" "padding_mode e = 0 \<or> padding_mode e = 1"
    using c(1,2,3,4) by simp_all
  then show ?thesis
    using assms(2) unfolding exact_sizes_def
    by (intro derive_dims_constructed tensor_sizes_nonneg) simp_all
qed

lemma forward_empty:
  "tensor_empty img \<Longrightarrow> forward e img = Inl (ValueError InputImageEmpty)"
  by (auto simp: tensor_empty_def forward_def forward_run_def call_store_def split: list.splits)

lemma forward_channels_mismatch:
  "\<not> tensor_empty img \<Longrightarrow> int (length img) \<noteq> input_channels e \<Longrightarrow>
   forward e img =
     Inl (ValueError (InputImageChannelsMismatch (input_channels e) (length img)))"
  by (auto simp: tensor_empty_def forward_def forward_run_def call_store_def split: list.splits)

lemma forward_dims_non_positive:
  assumes "\<not> tensor_empty img" "int (length img) = input_channels e"
    and "derive_dims e (tensor_height img) (tensor_width img) = Inr d"
    and "output_height d \<le> 0 \<or> output_width d \<le> 0"
  shows "forward e img = Inl (ValueError OutputDimensionsNonPositive)"
  using assms
  by (auto simp: tensor_empty_def tensor_height_def tensor_width_def forward_def
        forward_run_def call_store_def split: list.splits)

lemma output_dim_valid_pos:
  assumes "padding_mode e = 0" "0 < stride e" "kernel_size e \<le> n"
  shows "0 < output_dim e n"
proof -
  have "0 \<le> (n - kernel_size e) div stride e"
    using assms(2,3) by (simp add: pos_imp_zdiv_nonneg_iff)
  then show ?thesis
    using assms(1) by (simp add: output_dim_def floor_divide_of_int_eq del: of_int_diff)
qed

lemma output_dim_same_pos:
  assumes "padding_mode e \<noteq> 0" "0 < stride e" "0 < n"
  shows "0 < output_dim e n"
  using assms by (simp add: output_dim_def)

lemma forward_dims_raise:
  assumes "\<not> tensor_empty img" "int (length img) = input_channels e"
    and "derive_dims e (tensor_height img) (tensor_width img) = Inl err"
  shows "forward e img = Inl err"
  using assms
  by (auto simp: tensor_empty_def tensor_height_def tensor_width_def forward_def
        forward_run_def call_store_def split: list.splits)

subsection \<open>A stride beyond the range of a double\<close>

lemma huge_stride_pos: "0 < huge_stride"
  by (simp add: huge_stride_def)

lemma quotient_underflows: "py_truediv 1 huge_stride = Inr 0"
  by code_simp

lemma half_overflows: "py_truediv (- huge_stride) 2 = Inl OverflowError"
  by code_simp

lemma exact_ceiling_huge: "\<lceil>1 / real_of_int huge_stride\<rceil> = 1"
proof -
  have "1 \<le> real_of_int huge_stride"
    using huge_stride_pos by linarith
  then have "0 < 1 / real_of_int huge_stride" "1 / real_of_int huge_stride \<le> 1"
    by simp_all
  then show ?thesis by (simp add: ceiling_eq_iff)
qed

lemma derive_dims_huge: "derive_dims (huge_stride_layer ic w) 1 1 = Inl OverflowError"
  by (simp add: derive_dims_def huge_stride_layer_def quotient_underflows math_ceil_def
        calculate_padding_amount_def half_overflows)

lemma forward_huge:
  assumes "\<not> tensor_empty img" "int (length img) = ic"
    and "tensor_height img = 1" "tensor_width img = 1"
  shows "forward (huge_stride_layer ic w) img = Inl OverflowError"
  by (rule forward_dims_raise)
     (use assms derive_dims_huge in \<open>simp_all add: huge_stride_layer_def\<close>)

lemma huge_not_rejected:
  assumes "\<not> tensor_empty img" "int (length img) = ic"
    and "tensor_height img = 1" "tensor_width img = 1"
  shows "\<not> shape_rejected (huge_stride_layer ic w) img"
  using assms exact_ceiling_huge
  by (simp add: shape_rejected_def output_dim_def huge_stride_layer_def)

lemma init_huge_layer: "init 1 huge_stride 1 1 1 [[[[1]]]] = Inr huge_layer"
  using huge_stride_pos by (simp add: init_def huge_layer_def huge_stride_layer_def)

section \<open>The tensor that \<^verbatim>\<open>forward\<close> returns\<close>

subsection \<open>C1: every cell is the zero-padded weighted sum\<close>

text \<open>
  Claim C1. For a layer that \<^verbatim>\<open>__init__\<close> returned and an accepted input tensor
  (rectangular, not empty, with the configured number of channels, the derived output
  dimensions positive), \<^verbatim>\<open>forward\<close> returns a tensor of the output shape whose cell
  at \<open>[c][h][w]\<close> is the sum, over the input channels, kernel rows and kernel columns in
  this order, of the input sample at row \<open>h * stride + kh - padding_h\<close> and column
  \<open>w * stride + kw - padding_w\<close> times the kernel weight; a sample outside the input is
  zero, and its term is still added.
\<close>

theorem forward_cells:
  fixes e :: "('a::{zero,plus,times}) ConvolutionLayer"
  assumes "init ks st pm ic oc wts = Inr e"
    and "rectangular img" "\<not> tensor_empty img"
    and "int (length img) = input_channels e"
    and "derive_dims e (tensor_height img) (tensor_width img) = Inr d"
    and "0 < output_height d" "0 < output_width d"
  shows "\<exists>out. forward e img = Inr out \<and>
           tensor_shape (nat (output_channels e)) (nat (output_height d))
             (nat (output_width d)) out \<and>
           (\<forall>c h w. c < nat (output_channels e) \<and> h < nat (output_height d) \<and>
               w < nat (output_width d) \<longrightarrow>
              out ! c ! h ! w =
                foldl (+) 0
                  [(if 0 \<le> int h * stride e + int kh - padding_h d \<and>
                       int h * stride e + int kh - padding_h d < tensor_height img \<and>
                       0 \<le> int w * stride e + int kw - padding_w d \<and>
                       int w * stride e + int kw - padding_w d < tensor_width img
                    then img ! i ! nat (int h * stride e + int kh - padding_h d)
                             ! nat (int w * stride e + int kw - padding_w d)
                    else 0) * kernel_weights e ! c ! i ! kh ! kw.
                   i \<leftarrow> [0..<nat (input_channels e)],
                   kh \<leftarrow> [0..<nat (kernel_size e)],
                   kw \<leftarrow> [0..<nat (kernel_size e)]])"
proof -
  have f: "forward e img = Inr (conv_spec e d img)"
    by (rule forward_ok[OF init_Inr(7)[OF assms(1)] assms(2-7)])
  have sh: "tensor_shape (nat (output_channels e)) (nat (output_height d))
              (nat (output_width d)) (conv_spec e d img)"
    by (simp add: tensor_shape_def conv_spec_def)
  have inp: "input_height d = tensor_height img" "input_width d = tensor_width img"
    using derive_dims_inputs[OF assms(5)] by simp_all
  have "conv_spec e d img ! c ! h ! w = cell_sum e d img c h w"
    if "c < nat (output_channels e)" "h < nat (output_height d)" "w < nat (output_width d)"
    for c h w
    using that by (simp add: conv_spec_def)
  then show ?thesis
    using f sh
    by (simp add: cell_sum_def cell_term_def sample_def in_bounds_def h_idx_def w_idx_def inp)
qed

text \<open>
  An instance: a 2 by 2 kernel with SAME padding on a 2 by 3 input. The cell at
  \<open>[0][1][2]\<close> sees one sample of the input and three samples outside it.
\<close>

theorem forward_cells_witness:
  "init 2 1 1 1 1 [[[[1, 2], [3, 4]]]] = Inr layer1 \<and> rectangular image1 \<and>
   \<not> tensor_empty image1 \<and> int (length image1) = input_channels layer1 \<and>
   (\<exists>out. forward layer1 image1 = Inr out \<and> out ! 0 ! 1 ! 2 = 6 \<and> out ! 0 ! 0 ! 0 = 37)"
proof -
  have h1: "init 2 1 1 1 1 [[[[1, 2], [3, 4]]]] = Inr layer1"
    by (simp add: init_def layer1_def)
  have h2: "rectangular image1"
    by (simp add: rectangular_def image1_def tensor_height_def tensor_width_def)
  have h3: "\<not> tensor_empty image1"
    by (simp add: tensor_empty_def image1_def)
  have h4: "int (length image1) = input_channels layer1"
    by (simp add: image1_def layer1_def)
  have hw: "tensor_height image1 = 2" "tensor_width image1 = 3"
    by (simp_all add: image1_def tensor_height_def tensor_width_def)
  obtain d where h5: "derive_dims layer1 (tensor_height image1) (tensor_width image1) = Inr d"
    and d: "output_height d = 2" "output_width d = 3" "padding_h d = 0" "padding_w d = 0"
    using derive_dims_constructed[of layer1 2 3]
    by (auto simp: hw layer1_def output_dim_def same_padding_def)
  from forward_cells[OF h1 h2 h3 h4 h5]
  obtain out where out: "forward layer1 image1 = Inr out"
    and cells: "\<And>c h w. c < nat (output_channels layer1) \<and> h < nat (output_height d) \<and>
               w < nat (output_width d) \<Longrightarrow> out ! c ! h ! w =
                foldl (+) 0
                  [(if 0 \<le> int h * stride layer1 + int kh - padding_h d \<and>
                       int h * stride layer1 + int kh - padding_h d < tensor_height image1 \<and>
                       0 \<le> int w * stride layer1 + int kw - padding_w d \<and>
                       int w * stride layer1 + int kw - padding_w d < tensor_width image1
                    then image1 ! i ! nat (int h * stride layer1 + int kh - padding_h d)
                             ! nat (int w * stride layer1 + int kw - padding_w d)
                    else 0) * kernel_weights layer1 ! c ! i ! kh ! kw.
                   i \<leftarrow> [0..<nat (input_channels layer1)],
                   kh \<leftarrow> [0..<nat (kernel_size layer1)],
                   kw \<leftarrow> [0..<nat (kernel_size layer1)]]"
    using d by auto
  have two: "[0..<2] = [0, Suc 0]" by (simp add: upt_rec)
  have a: "out ! 0 ! 1 ! 2 = 6"
    using cells[of 0 1 2]
    by (simp add: d layer1_def image1_def tensor_height_def tensor_width_def two)
  have b: "out ! 0 ! 0 ! 0 = 37"
    using cells[of 0 0 0]
    by (simp add: d layer1_def image1_def tensor_height_def tensor_width_def two)
  show ?thesis using h1 h2 h3 h4 out a b by blast
qed

subsection \<open>C2: the shape of the output under VALID padding\<close>

text \<open>
  Claim C2. For a layer with padding mode VALID and an accepted input whose height and
  width are at least the kernel size, \<^verbatim>\<open>forward\<close> returns a tensor with
  \<open>output_channels\<close> channels, \<open>\<lfloor>(height - k) / stride\<rfloor> + 1\<close> rows in every channel
  and \<open>\<lfloor>(width - k) / stride\<rfloor> + 1\<close> cells in every row, and both padding amounts
  are 0.
\<close>

theorem valid_shape:
  fixes e :: "('a::{zero,plus,times}) ConvolutionLayer"
  assumes "init ks st pm ic oc wts = Inr e" and "padding_mode e = 0"
    and "rectangular img" "\<not> tensor_empty img"
    and "int (length img) = input_channels e"
    and "kernel_size e \<le> tensor_height img" "kernel_size e \<le> tensor_width img"
  shows "\<exists>out d. forward e img = Inr out \<and>
           derive_dims e (tensor_height img) (tensor_width img) = Inr d \<and>
           padding_h d = 0 \<and> padding_w d = 0 \<and>
           int (length out) = output_channels e \<and>
           (\<forall>ch \<in> set out.
              int (length ch) =
                \<lfloor>real_of_int (tensor_height img - kernel_size e) / real_of_int (stride e)\<rfloor> + 1 \<and>
              (\<forall>r \<in> set ch.
                 int (length r) =
                   \<lfloor>real_of_int (tensor_width img - kernel_size e) / real_of_int (stride e)\<rfloor> + 1))"
proof -
  note c = init_Inr[OF assms(1)]
  have st: "0 < stride e" and oc: "0 < output_channels e"
    using c(1,3,6) by simp_all
  have ex: "exact_sizes e img"
    using assms(2) by (simp add: exact_sizes_def)
  obtain d where d: "derive_dims e (tensor_height img) (tensor_width img) = Inr d"
    "output_height d = output_dim e (tensor_height img)"
    "output_width d = output_dim e (tensor_width img)"
    "padding_h d = 0" "padding_w d = 0"
    using derive_dims_layer[OF assms(1) ex] assms(2) by auto
  have pos: "0 < output_height d" "0 < output_width d"
    using d(2,3) output_dim_valid_pos[OF assms(2) st] assms(6,7) by simp_all
  have f: "forward e img = Inr (conv_spec e d img)"
    by (rule forward_ok[OF c(7) assms(3,4,5) d(1) pos])
  have "int (length (conv_spec e d img)) = output_channels e"
    using oc by (simp add: conv_spec_def)
  moreover have "\<forall>ch \<in> set (conv_spec e d img).
      int (length ch) = output_dim e (tensor_height img) \<and>
      (\<forall>r \<in> set ch. int (length r) = output_dim e (tensor_width img))"
    using pos d(2,3) by (auto simp: conv_spec_def)
  ultimately show ?thesis
    using f d(1,4,5) assms(2) by (simp add: output_dim_def)
qed

text \<open>An instance: a 2 by 2 kernel with stride 2 on a 3 by 4 input gives 1 by 2.\<close>

theorem valid_shape_witness:
  "init 2 2 0 1 1 [[[[1, 2], [3, 4]]]] = Inr layer2 \<and> padding_mode layer2 = 0 \<and>
   rectangular image2 \<and> \<not> tensor_empty image2 \<and>
   int (length image2) = input_channels layer2 \<and>
   kernel_size layer2 \<le> tensor_height image2 \<and> kernel_size layer2 \<le> tensor_width image2 \<and>
   (\<exists>out. forward layer2 image2 = Inr out \<and> length out = 1 \<and>
      length (out ! 0) = 1 \<and> length (out ! 0 ! 0) = 2)"
proof -
  have h1: "init 2 2 0 1 1 [[[[1, 2], [3, 4]]]] = Inr layer2"
    by (simp add: init_def layer2_def)
  have h2: "padding_mode layer2 = 0" by (simp add: layer2_def)
  have h3: "rectangular image2"
    by (simp add: rectangular_def image2_def tensor_height_def tensor_width_def)
  have h4: "\<not> tensor_empty image2" by (simp add: tensor_empty_def image2_def)
  have h5: "int (length image2) = input_channels layer2"
    by (simp add: image2_def layer2_def)
  have h6: "kernel_size layer2 \<le> tensor_height image2"
    by (simp add: image2_def layer2_def tensor_height_def)
  have h7: "kernel_size layer2 \<le> tensor_width image2"
    by (simp add: image2_def layer2_def tensor_width_def)
  from valid_shape[OF h1 h2 h3 h4 h5 h6 h7]
  obtain out where out: "forward layer2 image2 = Inr out"
    "int (length out) = output_channels layer2"
    "\<forall>ch \<in> set out.
       int (length ch) =
         \<lfloor>real_of_int (tensor_height image2 - kernel_size layer2) / real_of_int (stride layer2)\<rfloor> + 1 \<and>
       (\<forall>r \<in> set ch.
          int (length r) =
            \<lfloor>real_of_int (tensor_width image2 - kernel_size layer2) / real_of_int (stride layer2)\<rfloor> + 1)"
    by blast
  have l: "length out = 1" using out(2) by (simp add: layer2_def)
  then have m: "out ! 0 \<in> set out" by simp
  have l1: "length (out ! 0) = 1"
    using out(3) m by (fastforce simp: layer2_def image2_def tensor_height_def)
  then have "out ! 0 ! 0 \<in> set (out ! 0)" by simp
  then have l2: "length (out ! 0 ! 0) = 2"
    using out(3) m by (fastforce simp: layer2_def image2_def tensor_width_def)
  show ?thesis using h1 h2 h3 h4 h5 h6 h7 out(1) l l1 l2 by blast
qed

subsection \<open>C3: output dimensions and padding under SAME padding\<close>

text \<open>
  Claim C3, as amended. For a layer with padding mode SAME whose stride and kernel size
  are below \<open>2^53\<close> and an accepted input whose height and width are below \<open>2^53\<close>,
  \<^verbatim>\<open>forward\<close> derives, for each axis on its own, the output dimension
  \<open>\<lceil>n / stride\<rceil>\<close> (which is \<open>n\<close> when the stride is 1) and the one-sided padding
  amount \<open>max 0 \<lfloor>((output_dim - 1) * stride + k - n) / 2\<rfloor>\<close>, and it returns the
  tensor of the sums taken with these dimensions and paddings.
\<close>

theorem same_dims:
  fixes e :: "('a::{zero,plus,times}) ConvolutionLayer"
  assumes "init ks st pm ic oc wts = Inr e" and "padding_mode e = 1"
    and "stride e < 2 ^ 53" "kernel_size e < 2 ^ 53"
    and "rectangular img" "\<not> tensor_empty img"
    and "int (length img) = input_channels e"
    and "tensor_height img < 2 ^ 53" "tensor_width img < 2 ^ 53"
  shows "\<exists>d. derive_dims e (tensor_height img) (tensor_width img) = Inr d \<and>
           forward e img = Inr (conv_spec e d img) \<and>
           output_height d = \<lceil>real_of_int (tensor_height img) / real_of_int (stride e)\<rceil> \<and>
           output_width d = \<lceil>real_of_int (tensor_width img) / real_of_int (stride e)\<rceil> \<and>
           padding_h d =
             max 0 \<lfloor>real_of_int ((output_height d - 1) * stride e + kernel_size e
                                   - tensor_height img) / 2\<rfloor> \<and>
           padding_w d =
             max 0 \<lfloor>real_of_int ((output_width d - 1) * stride e + kernel_size e
                                   - tensor_width img) / 2\<rfloor> \<and>
           (stride e = 1 \<longrightarrow>
              output_height d = tensor_height img \<and> output_width d = tensor_width img)"
proof -
  note c = init_Inr[OF assms(1)]
  have st: "0 < stride e" using c(1,3) by simp
  have ex: "exact_sizes e img"
    using assms(3,4,8,9) by (simp add: exact_sizes_def)
  obtain d where d: "derive_dims e (tensor_height img) (tensor_width img) = Inr d"
    "output_height d = output_dim e (tensor_height img)"
    "output_width d = output_dim e (tensor_width img)"
    "padding_h d = same_padding e (tensor_height img)"
    "padding_w d = same_padding e (tensor_width img)"
    using derive_dims_layer[OF assms(1) ex] assms(2) by auto
  have hw: "0 < tensor_height img" "0 < tensor_width img"
    using assms(6)
    by (auto simp: tensor_empty_def tensor_height_def tensor_width_def split: list.splits)
  have pos: "0 < output_height d" "0 < output_width d"
    using d(2,3) output_dim_same_pos[OF _ st] hw assms(2) by simp_all
  have f: "forward e img = Inr (conv_spec e d img)"
    by (rule forward_ok[OF c(7) assms(5,6,7) d(1) pos])
  show ?thesis
    using d f assms(2) by (auto simp: output_dim_def same_padding_def)
qed

text \<open>
  An instance: a 3 by 3 kernel with stride 2 on a 5 by 4 input gives 3 by 2, with one
  row of padding above and no column of padding on the left.
\<close>

theorem same_dims_witness:
  "init 3 2 1 1 1 [[[[1, 1, 1], [1, 1, 1], [1, 1, 1]]]] = Inr layer3 \<and>
   padding_mode layer3 = 1 \<and> stride layer3 < 2 ^ 53 \<and> kernel_size layer3 < 2 ^ 53 \<and>
   rectangular image3 \<and> \<not> tensor_empty image3 \<and>
   int (length image3) = input_channels layer3 \<and>
   tensor_height image3 < 2 ^ 53 \<and> tensor_width image3 < 2 ^ 53 \<and>
   (\<exists>d. derive_dims layer3 (tensor_height image3) (tensor_width image3) = Inr d \<and>
      forward layer3 image3 = Inr (conv_spec layer3 d image3) \<and>
      output_height d = 3 \<and> output_width d = 2 \<and> padding_h d = 1 \<and> padding_w d = 0)"
proof -
  have h1: "init 3 2 1 1 1 [[[[1, 1, 1], [1, 1, 1], [1, 1, 1]]]] = Inr layer3"
    by (simp add: init_def layer3_def)
  have h2: "padding_mode layer3 = 1" by (simp add: layer3_def)
  have s1: "stride layer3 < 2 ^ 53" and s2: "kernel_size layer3 < 2 ^ 53"
    by (simp_all add: layer3_def)
  have h3: "rectangular image3"
    by (simp add: rectangular_def image3_def tensor_height_def tensor_width_def)
  have h4: "\<not> tensor_empty image3" by (simp add: tensor_empty_def image3_def)
  have h5: "int (length image3) = input_channels layer3"
    by (simp add: image3_def layer3_def)
  have hw: "tensor_height image3 = 5" "tensor_width image3 = 4"
    by (simp_all add: image3_def tensor_height_def tensor_width_def)
  have s3: "tensor_height image3 < 2 ^ 53" and s4: "tensor_width image3 < 2 ^ 53"
    by (simp_all add: hw)
  from same_dims[OF h1 h2 s1 s2 h3 h4 h5 s3 s4]
  obtain d where d: "derive_dims layer3 (tensor_height image3) (tensor_width image3) = Inr d"
    "forward layer3 image3 = Inr (conv_spec layer3 d image3)"
    "output_height d = \<lceil>real_of_int (tensor_height image3) / real_of_int (stride layer3)\<rceil>"
    "output_width d = \<lceil>real_of_int (tensor_width image3) / real_of_int (stride layer3)\<rceil>"
    "padding_h d =
       max 0 \<lfloor>real_of_int ((output_height d - 1) * stride layer3 + kernel_size layer3
                             - tensor_height image3) / 2\<rfloor>"
    "padding_w d =
       max 0 \<lfloor>real_of_int ((output_width d - 1) * stride layer3 + kernel_size layer3
                             - tensor_width image3) / 2\<rfloor>"
    by blast
  have oh: "output_height d = 3" using d(3) by (simp add: hw layer3_def)
  have ow: "output_width d = 2" using d(4) by (simp add: hw layer3_def)
  have ph: "padding_h d = 1" using d(5) by (simp add: oh hw layer3_def)
  have pw: "padding_w d = 0" using d(6) by (simp add: ow hw layer3_def)
  show ?thesis using h1 h2 s1 s2 h3 h4 h5 s3 s4 d(1,2) oh ow ph pw by blast
qed

text \<open>
  The claim as it stands fails for a stride beyond the range of a double. With the
  stride \<open>2^1075\<close> and a 1 by 1 input the quotient of line 64 is \<^verbatim>\<open>0.0\<close>, so that
  \<^verbatim>\<open>math.ceil\<close> gives 0 where the ceiling of the exact quotient is 1, and the
  quotient of line 40 is beyond the doubles: the call raises \<^verbatim>\<open>OverflowError\<close>.
\<close>

theorem same_dims_counterexample:
  "init 1 huge_stride 1 1 1 [[[[1]]]] = Inr huge_layer \<and> padding_mode huge_layer = 1 \<and>
   rectangular [[[7 :: int]]] \<and> \<not> tensor_empty [[[7 :: int]]] \<and>
   int (length [[[7 :: int]]]) = input_channels huge_layer \<and>
   tensor_height [[[7 :: int]]] = 1 \<and>
   py_truediv 1 (stride huge_layer) = Inr 0 \<and> math_ceil 0 = 0 \<and>
   \<lceil>1 / real_of_int (stride huge_layer)\<rceil> = 1 \<and>
   derive_dims huge_layer 1 1 = Inl OverflowError \<and>
   forward huge_layer [[[7]]] = Inl OverflowError"
proof -
  have e: "\<not> tensor_empty [[[7 :: int]]]" by (simp add: tensor_empty_def)
  have hw: "tensor_height [[[7 :: int]]] = 1" "tensor_width [[[7 :: int]]] = 1"
    by (simp_all add: tensor_height_def tensor_width_def)
  have r: "rectangular [[[7 :: int]]]"
    by (simp add: rectangular_def hw)
  have st: "stride huge_layer = huge_stride" "padding_mode huge_layer = 1"
    "input_channels huge_layer = 1"
    by (simp_all add: huge_layer_def huge_stride_layer_def)
  have f: "forward huge_layer [[[7]]] = Inl OverflowError"
    unfolding huge_layer_def by (rule forward_huge) (simp_all add: e hw)
  have d: "derive_dims huge_layer 1 1 = Inl OverflowError"
    unfolding huge_layer_def by (rule derive_dims_huge)
  show ?thesis
    using init_huge_layer e hw r f d quotient_underflows exact_ceiling_huge
    by (simp add: st math_ceil_def)
qed

subsection \<open>C10: under VALID padding every read is inside the input\<close>

text \<open>
  Claim C10. For a layer with padding mode VALID and an accepted rectangular input
  whose height and width are at least the kernel size, the test of line 91 holds at
  every iteration: both paddings are 0, the last window ends inside the input
  (\<open>(output_dim - 1) * stride + k - 1 \<le> n - 1\<close> on each axis), and every sampled pair
  of indices lies in \<open>[0, input_height) \<times> [0, input_width)\<close>, so that no sample is
  replaced by zero.
\<close>

theorem valid_reads_in_bounds:
  fixes e :: "('a::{zero,plus,times}) ConvolutionLayer"
  assumes "init ks st pm ic oc wts = Inr e" and "padding_mode e = 0"
    and "rectangular img" "\<not> tensor_empty img"
    and "int (length img) = input_channels e"
    and "kernel_size e \<le> tensor_height img" "kernel_size e \<le> tensor_width img"
    and "derive_dims e (tensor_height img) (tensor_width img) = Inr d"
    and "int oh < output_height d" "int ow < output_width d"
    and "int kh < kernel_size e" "int kw < kernel_size e"
  shows "padding_h d = 0 \<and> padding_w d = 0 \<and>
         (output_height d - 1) * stride e + kernel_size e - 1 \<le> tensor_height img - 1 \<and>
         (output_width d - 1) * stride e + kernel_size e - 1 \<le> tensor_width img - 1 \<and>
         in_bounds d (h_idx e d oh kh) (w_idx e d ow kw) \<and>
         0 \<le> int oh * stride e + int kh \<and> int oh * stride e + int kh < tensor_height img \<and>
         0 \<le> int ow * stride e + int kw \<and> int ow * stride e + int kw < tensor_width img \<and>
         sample d img i (h_idx e d oh kh) (w_idx e d ow kw) =
           img ! i ! nat (int oh * stride e + int kh) ! nat (int ow * stride e + int kw)"
proof -
  note c = init_Inr[OF assms(1)]
  have st: "0 < stride e" using c(1,3) by simp
  have d: "input_height d = tensor_height img" "input_width d = tensor_width img"
    "padding_h d = 0" "padding_w d = 0"
    "output_height d = (tensor_height img - kernel_size e) div stride e + 1"
    "output_width d = (tensor_width img - kernel_size e) div stride e + 1"
    using assms(2,8) st by (auto simp: derive_dims_def)
  have below: "a div stride e * stride e \<le> a" for a
    using st by (metis div_mult_mod_eq le_add_same_cancel1 pos_mod_sign)
  have span: "(n - kernel_size e) div stride e * stride e + kernel_size e \<le> n" for n
    using below[of "n - kernel_size e"] by linarith
  have step: "int j * stride e \<le> (n - kernel_size e) div stride e * stride e"
    if "int j < (n - kernel_size e) div stride e + 1" for j n
    using that st by (intro mult_right_mono) simp_all
  have h: "int oh * stride e + int kh < tensor_height img"
    using step[of oh "tensor_height img"] span[of "tensor_height img"] assms(9,11) d(5)
    by linarith
  have w: "int ow * stride e + int kw < tensor_width img"
    using step[of ow "tensor_width img"] span[of "tensor_width img"] assms(10,12) d(6)
    by linarith
  have h0: "0 \<le> int oh * stride e + int kh" and w0: "0 \<le> int ow * stride e + int kw"
    using st by simp_all
  have ib: "in_bounds d (h_idx e d oh kh) (w_idx e d ow kw)"
    using h w h0 w0 d(1-4) by (simp add: in_bounds_def h_idx_def w_idx_def)
  have "sample d img i (h_idx e d oh kh) (w_idx e d ow kw) =
          img ! i ! nat (int oh * stride e + int kh) ! nat (int ow * stride e + int kw)"
    using ib d(3,4) by (simp add: sample_def h_idx_def w_idx_def)
  then show ?thesis
    using d(3,4) ib h w h0 w0 span[of "tensor_height img"] span[of "tensor_width img"] d(5,6)
    by simp
qed

text \<open>
  An instance: the last window of the 2 by 2 kernel with stride 2 on the 3 by 4 input
  reads row 1 and column 3.
\<close>

theorem valid_reads_in_bounds_witness:
  "init 2 2 0 1 1 [[[[1, 2], [3, 4]]]] = Inr layer2 \<and> padding_mode layer2 = 0 \<and>
   rectangular image2 \<and> \<not> tensor_empty image2 \<and>
   int (length image2) = input_channels layer2 \<and>
   kernel_size layer2 \<le> tensor_height image2 \<and> kernel_size layer2 \<le> tensor_width image2 \<and>
   derive_dims layer2 (tensor_height image2) (tensor_width image2) =
     Inr \<lparr>input_height = 3, input_width = 4, padding_h = 0, padding_w = 0,
          output_height = 1, output_width = 2\<rparr> \<and>
   in_bounds \<lparr>input_height = 3, input_width = 4, padding_h = 0, padding_w = 0,
              output_height = 1, output_width = 2\<rparr> 1 3"
proof -
  let ?d = "\<lparr>input_height = 3, input_width = 4, padding_h = 0, padding_w = 0,
             output_height = 1, output_width = 2\<rparr>"
  have h1: "init 2 2 0 1 1 [[[[1, 2], [3, 4]]]] = Inr layer2"
    by (simp add: init_def layer2_def)
  have h2: "padding_mode layer2 = 0" by (simp add: layer2_def)
  have h3: "rectangular image2"
    by (simp add: rectangular_def image2_def tensor_height_def tensor_width_def)
  have h4: "\<not> tensor_empty image2" by (simp add: tensor_empty_def image2_def)
  have h5: "int (length image2) = input_channels layer2"
    by (simp add: image2_def layer2_def)
  have h6: "kernel_size layer2 \<le> tensor_height image2"
    by (simp add: image2_def layer2_def tensor_height_def)
  have h7: "kernel_size layer2 \<le> tensor_width image2"
    by (simp add: image2_def layer2_def tensor_width_def)
  have h8: "derive_dims layer2 (tensor_height image2) (tensor_width image2) = Inr ?d"
    by (simp add: derive_dims_def layer2_def image2_def tensor_height_def tensor_width_def)
  have "in_bounds ?d (h_idx layer2 ?d 0 1) (w_idx layer2 ?d 1 1)"
    using valid_reads_in_bounds[OF h1 h2 h3 h4 h5 h6 h7 h8, of 0 1 1 1]
    by (simp add: layer2_def)
  then have "in_bounds ?d 1 3"
    by (simp add: h_idx_def w_idx_def layer2_def)
  then show ?thesis using h1 h2 h3 h4 h5 h6 h7 h8 by blast
qed

subsection \<open>C5: when \<^verbatim>\<open>forward\<close> rejects its input\<close>

text \<open>
  Claim C5, as amended. On a rectangular input, and with VALID padding or with a stride,
  a kernel size and a height and width of the input below \<open>2^53\<close>, \<^verbatim>\<open>forward\<close>
  raises its \<^verbatim>\<open>ValueError\<close> (the specification's ShapeError) exactly when the input
  is empty, or its number of channels is not the configured one, or a derived output
  dimension is not positive; in every other case it returns a tensor, and it raises
  nothing else.
\<close>

theorem forward_shape_errors:
  fixes e :: "('a::{zero,plus,times}) ConvolutionLayer"
  assumes "init ks st pm ic oc wts = Inr e" and "rectangular img" and "exact_sizes e img"
  shows "(shape_rejected e img \<longrightarrow> (\<exists>m. forward e img = Inl (ValueError m))) \<and>
         (\<not> shape_rejected e img \<longrightarrow> (\<exists>out. forward e img = Inr out)) \<and>
         ((\<exists>m. forward e img = Inl (ValueError m)) \<longrightarrow> shape_rejected e img) \<and>
         forward e img \<noteq> Inl IndexError \<and> forward e img \<noteq> Inl ZeroDivisionError \<and>
         forward e img \<noteq> Inl OverflowError"
proof -
  note c = init_Inr[OF assms(1)]
  obtain d where d: "derive_dims e (tensor_height img) (tensor_width img) = Inr d"
    "output_height d = output_dim e (tensor_height img)"
    "output_width d = output_dim e (tensor_width img)"
    using derive_dims_layer[OF assms(1,3)] by blast
  consider (empty) "tensor_empty img"
    | (channels) "\<not> tensor_empty img" "int (length img) \<noteq> input_channels e"
    | (small) "\<not> tensor_empty img" "int (length img) = input_channels e"
        "output_height d \<le> 0 \<or> output_width d \<le> 0"
    | (accepted) "\<not> tensor_empty img" "int (length img) = input_channels e"
        "0 < output_height d" "0 < output_width d"
    by linarith
  then show ?thesis
  proof cases
    case empty
    then show ?thesis
      using forward_empty[of img e] by (simp add: shape_rejected_def)
  next
    case channels
    then show ?thesis
      using forward_channels_mismatch[of img e] by (simp add: shape_rejected_def)
  next
    case small
    then show ?thesis
      using forward_dims_non_positive[OF small(1,2) d(1) small(3)] d(2,3)
      by (auto simp: shape_rejected_def)
  next
    case accepted
    have "forward e img = Inr (conv_spec e d img)"
      by (rule forward_ok[OF c(7) assms(2) accepted(1,2) d(1) accepted(3,4)])
    then show ?thesis
      using accepted d(2,3) by (simp add: shape_rejected_def)
  qed
qed

text \<open>
  Two instances for the 2 by 2 kernel without padding: a 1 by 1 input is rejected, the
  3 by 4 input is not.
\<close>

theorem forward_shape_errors_witness:
  "init 2 2 0 1 1 [[[[1, 2], [3, 4]]]] = Inr layer2 \<and>
   rectangular [[[7 :: int]]] \<and> exact_sizes layer2 [[[7]]] \<and>
   shape_rejected layer2 [[[7]]] \<and>
   (\<exists>m. forward layer2 [[[7]]] = Inl (ValueError m)) \<and>
   rectangular image2 \<and> exact_sizes layer2 image2 \<and> \<not> shape_rejected layer2 image2 \<and>
   (\<exists>out. forward layer2 image2 = Inr out)"
proof -
  have h1: "init 2 2 0 1 1 [[[[1, 2], [3, 4]]]] = Inr layer2"
    by (simp add: init_def layer2_def)
  have r1: "rectangular [[[7 :: int]]]"
    by (simp add: rectangular_def tensor_height_def tensor_width_def)
  have r2: "rectangular image2"
    by (simp add: rectangular_def image2_def tensor_height_def tensor_width_def)
  have x: "exact_sizes layer2 img" for img
    by (simp add: exact_sizes_def layer2_def)
  have s1: "shape_rejected layer2 [[[7]]]"
    by (simp add: shape_rejected_def output_dim_def tensor_empty_def tensor_height_def
          tensor_width_def layer2_def)
  have s2: "\<not> shape_rejected layer2 image2"
    by (simp add: shape_rejected_def output_dim_def tensor_empty_def tensor_height_def
          tensor_width_def layer2_def image2_def)
  show ?thesis
    using h1 r1 r2 s1 s2 x forward_shape_errors[OF h1 r1 x] forward_shape_errors[OF h1 r2 x]
    by blast
qed

text \<open>
  The claim as it stands fails for a stride beyond the range of a double: the layer
  with SAME padding and the stride \<open>2^1075\<close> is constructed, the 1 by 1 input is not
  empty, has the configured channel and an output dimension \<open>\<lceil>1 / 2^1075\<rceil> = 1\<close>, and
  the call neither returns nor raises a \<^verbatim>\<open>ValueError\<close>: line 40, reached from line
  66, raises \<^verbatim>\<open>OverflowError\<close>.
\<close>

theorem forward_shape_errors_counterexample:
  "init 1 huge_stride 1 1 1 [[[[1]]]] = Inr huge_layer \<and>
   rectangular [[[7 :: int]]] \<and> \<not> shape_rejected huge_layer [[[7]]] \<and>
   forward huge_layer [[[7]]] = Inl OverflowError"
proof -
  have e: "\<not> tensor_empty [[[7 :: int]]]" by (simp add: tensor_empty_def)
  have hw: "tensor_height [[[7 :: int]]] = 1" "tensor_width [[[7 :: int]]] = 1"
    by (simp_all add: tensor_height_def tensor_width_def)
  have r: "rectangular [[[7 :: int]]]"
    by (simp add: rectangular_def hw)
  have f: "forward huge_layer [[[7]]] = Inl OverflowError"
    unfolding huge_layer_def by (rule forward_huge) (simp_all add: e hw)
  have n: "\<not> shape_rejected huge_layer [[[7]]]"
    unfolding huge_layer_def by (rule huge_not_rejected) (simp_all add: e hw)
  show ?thesis using init_huge_layer r n f by simp
qed

section \<open>Raises and the frame of the loops\<close>

lemma for_each_frame:
  assumes "\<And>i s. self s = e \<Longrightarrow> input_image s = img \<Longrightarrow> frame_kept e img (body i s)"
    and "self s = e" "input_image s = img"
  shows "frame_kept e img (for_each xs body s)"
  using assms(2,3)
proof (induction xs arbitrary: s)
  case Nil
  then show ?case by (simp add: frame_kept_def)
next
  case (Cons i rest)
  show ?case
  proof (cases "body i s")
    case (Inl x)
    then show ?thesis
      using assms(1)[OF Cons.prems, of i] by simp
  next
    case (Inr s1)
    then have "self s1 = e" "input_image s1 = img"
      using assms(1)[OF Cons.prems, of i] by (simp_all add: frame_kept_def)
    then show ?thesis
      using Cons.IH Inr by simp
  qed
qed

lemma accumulate_frame:
  "self s = e \<Longrightarrow> input_image s = img \<Longrightarrow>
   frame_kept e img (accumulate d oc oh ow ic kh kw s)"
  by (simp add: accumulate_def frame_kept_def Let_def split: sum.splits)

lemma loop_k_w_frame:
  "self s = e \<Longrightarrow> input_image s = img \<Longrightarrow> frame_kept e img (loop_k_w d oc oh ow ic kh s)"
  unfolding loop_k_w_def by (rule for_each_frame) (simp_all add: accumulate_frame)

lemma loop_k_h_frame:
  "self s = e \<Longrightarrow> input_image s = img \<Longrightarrow> frame_kept e img (loop_k_h d oc oh ow ic s)"
  unfolding loop_k_h_def by (rule for_each_frame) (simp_all add: loop_k_w_frame)

lemma loop_in_c_frame:
  "self s = e \<Longrightarrow> input_image s = img \<Longrightarrow> frame_kept e img (loop_in_c d oc oh ow s)"
  unfolding loop_in_c_def by (rule for_each_frame) (simp_all add: loop_k_h_frame)

lemma store_cell_frame:
  "self s = e \<Longrightarrow> input_image s = img \<Longrightarrow> frame_kept e img (store_cell oc oh ow s)"
  by (simp add: store_cell_def frame_kept_def Let_def)

lemma compute_cell_frame:
  assumes "self s = e" "input_image s = img"
  shows "frame_kept e img (compute_cell d oc oh ow s)"
proof (cases "loop_in_c d oc oh ow (s\<lparr>current_sum := 0\<rparr>)")
  case (Inl x)
  then show ?thesis
    using loop_in_c_frame[of "s\<lparr>current_sum := 0\<rparr>" e img d oc oh ow] assms
    by (simp add: compute_cell_def)
next
  case (Inr s1)
  then have "self s1 = e" "input_image s1 = img"
    using loop_in_c_frame[of "s\<lparr>current_sum := 0\<rparr>" e img d oc oh ow] assms
    by (simp_all add: frame_kept_def)
  then show ?thesis
    using Inr by (simp add: compute_cell_def store_cell_frame)
qed

lemma loop_out_w_frame:
  "self s = e \<Longrightarrow> input_image s = img \<Longrightarrow> frame_kept e img (loop_out_w d oc oh s)"
  unfolding loop_out_w_def by (rule for_each_frame) (simp_all add: compute_cell_frame)

lemma loop_out_h_frame:
  "self s = e \<Longrightarrow> input_image s = img \<Longrightarrow> frame_kept e img (loop_out_h d oc s)"
  unfolding loop_out_h_def by (rule for_each_frame) (simp_all add: loop_out_w_frame)

lemma loop_out_c_frame:
  "self s = e \<Longrightarrow> input_image s = img \<Longrightarrow> frame_kept e img (loop_out_c d s)"
  unfolding loop_out_c_def by (rule for_each_frame) (simp_all add: loop_out_h_frame)

lemma forward_run_frame:
  assumes "self s = e" "input_image s = img"
  shows "frame_kept e img (forward_run s)"
proof -
  have loop: "frame_kept e img (loop_out_c d (s\<lparr>output_image := t\<rparr>))" for d t
    by (rule loop_out_c_frame) (simp_all add: assms)
  have raise: "frame_kept e img (Inl (err, s))" for err
    by (simp add: frame_kept_def assms)
  show ?thesis
    unfolding forward_run_def
    by (simp add: loop raise split: list.split sum.split)
qed

subsection \<open>C8: a call changes neither the layer nor the input\<close>

text \<open>
  Claim C8. Whether \<^verbatim>\<open>forward\<close> returns or raises, the layer (its configuration
  and kernel weights) and the input tensor in the store it leaves are those it was
  called with; the returned tensor is the one local it built; and a second call on the
  layer and input as the first call left them gives the result of the first.
\<close>

theorem forward_frame:
  fixes e :: "('a::{zero,plus,times}) ConvolutionLayer"
  shows "(case forward_run (call_store e img) of
            Inl (err, s) \<Rightarrow>
              self s = e \<and> input_image s = img \<and> forward e img = Inl err \<and>
              forward (self s) (input_image s) = forward e img
          | Inr s \<Rightarrow>
              self s = e \<and> input_image s = img \<and> forward e img = Inr (output_image s) \<and>
              forward (self s) (input_image s) = forward e img)"
  using forward_run_frame[of "call_store e img" e img]
  by (auto simp: frame_kept_def call_store_def forward_def split: sum.splits)

text \<open>An instance: a call that returns and a call that raises.\<close>

theorem forward_frame_witness:
  "(\<exists>s. forward_run (call_store layer1 image1) = Inr s \<and> self s = layer1 \<and>
        input_image s = image1 \<and> forward (self s) (input_image s) = forward layer1 image1) \<and>
   (\<exists>s. forward_run (call_store layer1 []) = Inl (ValueError InputImageEmpty, s) \<and>
        self s = layer1 \<and> input_image s = [])"
proof -
  have a: "forward layer1 image1 = Inr [[[37, 47, 21], [14, 17, 6]]]"
    by code_simp
  have b: "forward_run (call_store layer1 []) =
             Inl (ValueError InputImageEmpty, call_store layer1 [])"
    by (simp add: forward_run_def call_store_def)
  from a obtain s where s: "forward_run (call_store layer1 image1) = Inr s"
    by (auto simp: forward_def split: sum.splits prod.splits)
  have c: "self s = layer1 \<and> input_image s = image1 \<and>
           forward (self s) (input_image s) = forward layer1 image1"
    using forward_frame[of layer1 image1] s by simp
  have d: "self (call_store layer1 []) = layer1 \<and> input_image (call_store layer1 []) = []"
    using forward_frame[of layer1 "[]"] b by simp
  show ?thesis using s b c d by blast
qed

lemma for_each_raises:
  assumes "for_each xs body s = Inl (err, s')"
  shows "\<exists>i s0. body i s0 = Inl (err, s')"
  using assms
proof (induction xs arbitrary: s)
  case Nil
  then show ?case by simp
next
  case (Cons i rest)
  then show ?case by (cases "body i s") auto
qed

lemma getitem_raises: "getitem xs i = Inl err \<Longrightarrow> err = IndexError"
  by (simp add: getitem_def split: if_splits)

lemma getitem3_raises: "getitem3 t i j k = Inl err \<Longrightarrow> err = IndexError"
  by (auto simp: getitem3_def split: sum.splits dest: getitem_raises)

lemma getitem4_raises: "getitem4 t i j k l = Inl err \<Longrightarrow> err = IndexError"
  by (auto simp: getitem4_def split: sum.splits dest: getitem_raises getitem3_raises)

lemma accumulate_raises:
  "accumulate d oc oh ow ic kh kw s = Inl (err, s') \<Longrightarrow> err = IndexError"
  by (auto simp: accumulate_def Let_def split: sum.splits if_splits
      dest: getitem3_raises getitem4_raises)

lemma loop_in_c_raises:
  assumes "loop_in_c d oc oh ow s = Inl (err, s')"
  shows "err = IndexError"
proof -
  from assms obtain ic s1 where "loop_k_h d oc oh ow ic s1 = Inl (err, s')"
    unfolding loop_in_c_def by (blast dest: for_each_raises)
  then obtain kh s2 where "loop_k_w d oc oh ow ic kh s2 = Inl (err, s')"
    unfolding loop_k_h_def by (blast dest: for_each_raises)
  then obtain kw s3 where "accumulate d oc oh ow ic kh kw s3 = Inl (err, s')"
    unfolding loop_k_w_def by (blast dest: for_each_raises)
  then show ?thesis by (rule accumulate_raises)
qed

lemma compute_cell_raises:
  "compute_cell d oc oh ow s = Inl (err, s') \<Longrightarrow> err = IndexError"
  by (auto simp: compute_cell_def store_cell_def Let_def split: sum.splits if_splits
      dest: loop_in_c_raises)

lemma loop_out_c_raises:
  assumes "loop_out_c d s = Inl (err, s')"
  shows "err = IndexError"
proof -
  from assms obtain oc s1 where "loop_out_h d oc s1 = Inl (err, s')"
    unfolding loop_out_c_def by (blast dest: for_each_raises)
  then obtain oh s2 where "loop_out_w d oc oh s2 = Inl (err, s')"
    unfolding loop_out_h_def by (blast dest: for_each_raises)
  then obtain ow s3 where "compute_cell d oc oh ow s3 = Inl (err, s')"
    unfolding loop_out_w_def by (blast dest: for_each_raises)
  then show ?thesis by (rule compute_cell_raises)
qed

lemma forward_accepted:
  assumes "\<not> tensor_empty img" "int (length img) = input_channels e"
    and "derive_dims e (tensor_height img) (tensor_width img) = Inr d"
    and "0 < output_height d" "0 < output_width d"
  shows "forward e img = Inl IndexError \<or> (\<exists>out. forward e img = Inr out)"
proof -
  let ?s = "(call_store e img)\<lparr>output_image :=
              zeros (output_channels e) (output_height d) (output_width d)\<rparr>"
  have run: "forward_run (call_store e img) = loop_out_c d ?s"
    using assms
    by (auto simp: tensor_empty_def tensor_height_def tensor_width_def forward_run_def
          call_store_def split: list.splits)
  show ?thesis
  proof (cases "loop_out_c d ?s")
    case (Inl x)
    then obtain err s' where "loop_out_c d ?s = Inl (err, s')" by (cases x) simp
    then show ?thesis
      using run loop_out_c_raises[of d ?s err s'] by (simp add: forward_def)
  next
    case (Inr s')
    then show ?thesis using run by (simp add: forward_def)
  qed
qed

lemma shape_error_None: "shape_error e img = None \<longleftrightarrow> \<not> shape_rejected e img"
  by (simp add: shape_error_def shape_rejected_def)

lemma first_channel_only:
  assumes "length img' = length img" "take 1 img' = take 1 img"
  shows "tensor_empty img' = tensor_empty img"
    and "tensor_height img' = tensor_height img"
    and "tensor_width img' = tensor_width img"
  using assms
  by (cases img; cases img'; simp add: tensor_empty_def tensor_height_def tensor_width_def)+

lemma forward_shape_error:
  fixes e :: "('a::{zero,plus,times}) ConvolutionLayer"
  assumes "init ks st pm ic oc wts = Inr e" and "exact_sizes e img"
  shows "forward e img = Inl (ValueError m) \<longleftrightarrow> shape_error e img = Some m"
proof -
  obtain d where d: "derive_dims e (tensor_height img) (tensor_width img) = Inr d"
    "output_height d = output_dim e (tensor_height img)"
    "output_width d = output_dim e (tensor_width img)"
    using derive_dims_layer[OF assms] by blast
  consider (empty) "tensor_empty img"
    | (channels) "\<not> tensor_empty img" "int (length img) \<noteq> input_channels e"
    | (small) "\<not> tensor_empty img" "int (length img) = input_channels e"
        "output_height d \<le> 0 \<or> output_width d \<le> 0"
    | (accepted) "\<not> tensor_empty img" "int (length img) = input_channels e"
        "0 < output_height d" "0 < output_width d"
    by linarith
  then show ?thesis
  proof cases
    case empty
    then show ?thesis
      using forward_empty[of img e] by (auto simp: shape_error_def)
  next
    case channels
    then show ?thesis
      using forward_channels_mismatch[of img e] by (auto simp: shape_error_def)
  next
    case small
    then show ?thesis
      using forward_dims_non_positive[OF small(1,2) d(1) small(3)] d(2,3)
      by (auto simp: shape_error_def)
  next
    case accepted
    have "forward e img = Inl IndexError \<or> (\<exists>out. forward e img = Inr out)"
      by (rule forward_accepted[OF accepted(1,2) d(1) accepted(3,4)])
    then show ?thesis
      using accepted d(2,3) by (auto simp: shape_error_def)
  qed
qed

lemma forward_first_channel:
  fixes e :: "('a::{zero,plus,times}) ConvolutionLayer"
  assumes "length img' = length img" "take 1 img' = take 1 img"
  shows "forward e img' = Inl (ValueError m) \<longleftrightarrow> forward e img = Inl (ValueError m)"
proof -
  note fc = first_channel_only[OF assms]
  let ?dims = "derive_dims e (tensor_height img) (tensor_width img)"
  consider (empty) "tensor_empty img"
    | (channels) "\<not> tensor_empty img" "int (length img) \<noteq> input_channels e"
    | (raises) err where "\<not> tensor_empty img" "int (length img) = input_channels e"
        "?dims = Inl err"
    | (small) d where "\<not> tensor_empty img" "int (length img) = input_channels e"
        "?dims = Inr d" "output_height d \<le> 0 \<or> output_width d \<le> 0"
    | (accepted) d where "\<not> tensor_empty img" "int (length img) = input_channels e"
        "?dims = Inr d" "0 < output_height d" "0 < output_width d"
    by (cases ?dims) force+
  then show ?thesis
  proof cases
    case empty
    then show ?thesis
      using forward_empty[of img e] forward_empty[of img' e] fc(1) by simp
  next
    case channels
    then show ?thesis
      using forward_channels_mismatch[of img e] forward_channels_mismatch[of img' e]
        fc(1) assms(1)
      by simp
  next
    case raises
    then show ?thesis
      using forward_dims_raise[of img e err] forward_dims_raise[of img' e err] fc assms(1)
      by simp
  next
    case small
    then show ?thesis
      using forward_dims_non_positive[of img e d] forward_dims_non_positive[of img' e d]
        fc assms(1)
      by simp
  next
    case accepted
    then show ?thesis
      using forward_accepted[of img e d] forward_accepted[of img' e d] fc assms(1)
      by auto
  qed
qed

subsection \<open>C9: only the first channel is checked\<close>

text \<open>
  Claim C9, as amended. Whether \<^verbatim>\<open>forward\<close> raises its \<^verbatim>\<open>ValueError\<close>, and
  which, is decided by the number of channels and by the first channel alone (its
  height and the width of its first row): two inputs with the same number of channels
  and the same first channel raise the same \<^verbatim>\<open>ValueError\<close> or none. With VALID
  padding, or with a stride, a kernel size and a height and width of the first channel
  below \<open>2^53\<close>, the \<^verbatim>\<open>ValueError\<close> is the one that the three checks give on the
  first channel; so there an input, ragged or not, whose channel count is the configured
  one and whose first channel is not empty and gives positive output dimensions raises no
  \<^verbatim>\<open>ValueError\<close>, and without rectangularity the call then returns or fails on a
  subscript out of range.
\<close>

theorem ragged_not_checked:
  fixes e :: "('a::{zero,plus,times}) ConvolutionLayer"
  assumes "init ks st pm ic oc wts = Inr e"
  shows "(length img' = length img \<and> take 1 img' = take 1 img \<longrightarrow>
            (forward e img' = Inl (ValueError m) \<longleftrightarrow> forward e img = Inl (ValueError m))) \<and>
         (exact_sizes e img \<longrightarrow>
            (forward e img = Inl (ValueError m) \<longleftrightarrow> shape_error e img = Some m)) \<and>
         (exact_sizes e img \<and> \<not> tensor_empty img \<and> int (length img) = input_channels e \<and>
          0 < output_dim e (tensor_height img) \<and> 0 < output_dim e (tensor_width img) \<longrightarrow>
            (\<forall>m'. forward e img \<noteq> Inl (ValueError m')) \<and>
            (forward e img = Inl IndexError \<or> (\<exists>out. forward e img = Inr out)))"
proof -
  have a: "forward e img' = Inl (ValueError m) \<longleftrightarrow> forward e img = Inl (ValueError m)"
    if "length img' = length img" "take 1 img' = take 1 img"
    by (rule forward_first_channel[OF that])
  have b: "forward e img = Inl (ValueError m) \<longleftrightarrow> shape_error e img = Some m"
    if "exact_sizes e img"
    by (rule forward_shape_error[OF assms that])
  have cc: "(\<forall>m'. forward e img \<noteq> Inl (ValueError m')) \<and>
            (forward e img = Inl IndexError \<or> (\<exists>out. forward e img = Inr out))"
    if x: "exact_sizes e img"
      and h: "\<not> tensor_empty img" "int (length img) = input_channels e"
      "0 < output_dim e (tensor_height img)" "0 < output_dim e (tensor_width img)"
  proof -
    obtain d where d: "derive_dims e (tensor_height img) (tensor_width img) = Inr d"
      "output_height d = output_dim e (tensor_height img)"
      "output_width d = output_dim e (tensor_width img)"
      using derive_dims_layer[OF assms x] by blast
    have "shape_error e img = None"
      using h by (simp add: shape_error_def)
    then have "\<forall>m'. forward e img \<noteq> Inl (ValueError m')"
      by (simp add: forward_shape_error[OF assms x])
    moreover have "forward e img = Inl IndexError \<or> (\<exists>out. forward e img = Inr out)"
      using forward_accepted[OF h(1,2) d(1)] h(3,4) d(2,3) by simp
    ultimately show ?thesis by blast
  qed
  show ?thesis using a b cc by blast
qed

text \<open>
  An instance: two channels for a 2 by 2 kernel, the first 2 by 2, the second a single
  cell. No \<^verbatim>\<open>ValueError\<close> is raised, and the read of the second channel fails.
\<close>

theorem ragged_not_checked_witness:
  "init 2 1 0 2 1 [[[[1, 2], [3, 4]], [[5, 6], [7, 8]]]] = Inr layer4 \<and>
   \<not> rectangular ragged_short \<and> exact_sizes layer4 ragged_short \<and>
   \<not> tensor_empty ragged_short \<and>
   int (length ragged_short) = input_channels layer4 \<and>
   0 < output_dim layer4 (tensor_height ragged_short) \<and>
   0 < output_dim layer4 (tensor_width ragged_short) \<and>
   forward layer4 ragged_short = Inl IndexError"
proof -
  have h1: "init 2 1 0 2 1 [[[[1, 2], [3, 4]], [[5, 6], [7, 8]]]] = Inr layer4"
    by (simp add: init_def layer4_def)
  have h2: "\<not> rectangular ragged_short"
    by (simp add: rectangular_def ragged_short_def tensor_height_def tensor_width_def)
  have x: "exact_sizes layer4 ragged_short"
    by (simp add: exact_sizes_def layer4_def)
  have h3: "\<not> tensor_empty ragged_short"
    by (simp add: tensor_empty_def ragged_short_def)
  have h4: "int (length ragged_short) = input_channels layer4"
    by (simp add: ragged_short_def layer4_def)
  have h5: "0 < output_dim layer4 (tensor_height ragged_short)"
    by (simp add: output_dim_def ragged_short_def layer4_def tensor_height_def)
  have h6: "0 < output_dim layer4 (tensor_width ragged_short)"
    by (simp add: output_dim_def ragged_short_def layer4_def tensor_width_def)
  have no_return: "forward layer4 ragged_short \<noteq> Inr out" for out
    by code_simp
  have "forward layer4 ragged_short = Inl IndexError \<or>
        (\<exists>out. forward layer4 ragged_short = Inr out)"
    using ragged_not_checked[OF h1, of ragged_short] x h3 h4 h5 h6 by blast
  then have "forward layer4 ragged_short = Inl IndexError"
    using no_return by blast
  then show ?thesis using h1 h2 x h3 h4 h5 h6 by blast
qed

text \<open>
  The claim as it stands fails where the first channel itself is rejected: two
  channels, the first a single cell, the second with two columns, for a 2 by 2 kernel
  without padding.
\<close>

theorem ragged_shape_error_counterexample:
  "init 2 1 0 2 1 [[[[1, 2], [3, 4]], [[5, 6], [7, 8]]]] = Inr layer4 \<and>
   int (length ragged_small) = input_channels layer4 \<and>
   \<not> rectangular ragged_small \<and>
   forward layer4 ragged_small = Inl (ValueError OutputDimensionsNonPositive)"
proof -
  have h1: "init 2 1 0 2 1 [[[[1, 2], [3, 4]], [[5, 6], [7, 8]]]] = Inr layer4"
    by (simp add: init_def layer4_def)
  have h2: "int (length ragged_small) = input_channels layer4"
    by (simp add: ragged_small_def layer4_def)
  have h3: "\<not> rectangular ragged_small"
    by (simp add: rectangular_def ragged_small_def tensor_height_def tensor_width_def)
  have h4: "forward layer4 ragged_small = Inl (ValueError OutputDimensionsNonPositive)"
    by (simp add: forward_def forward_run_def call_store_def ragged_small_def layer4_def
          derive_dims_def)
  show ?thesis using h1 h2 h3 h4 by blast
qed

section \<open>The constructor\<close>

lemma first_failure_Nil: "first_failure [] = None"
  by (simp add: first_failure_def)

lemma first_failure_Cons:
  "first_failure ((b, m) # checks) = (if b then first_failure checks else Some m)"
  by (simp add: first_failure_def)

lemma first_failure_append:
  "first_failure (xs @ ys) =
     (case first_failure xs of Some m \<Rightarrow> Some m | None \<Rightarrow> first_failure ys)"
  by (induction xs) (auto simp: first_failure_def)

lemma first_failure_None: "first_failure checks = None \<longleftrightarrow> (\<forall>c \<in> set checks. fst c)"
  by (induction checks) (auto simp: first_failure_def)

lemma check_k_rows_first:
  "check_k_rows ks y = map_option ValueError (first_failure (row_checks ks y))"
  by (induction y) (simp_all add: row_checks_def first_failure_Nil first_failure_Cons)

lemma check_ic_weights_first:
  "check_ic_weights ks x = map_option ValueError (first_failure (ic_checks ks x))"
proof (induction x)
  case Nil
  then show ?case by (simp add: ic_checks_def first_failure_Nil)
next
  case (Cons y ys)
  have "ic_checks ks (y # ys) =
          ((int (length y) = ks, HeightDimensionMismatch ks (length y)) # row_checks ks y)
          @ ic_checks ks ys"
    by (simp add: ic_checks_def)
  then show ?case
    using Cons
    by (simp add: first_failure_Cons first_failure_append check_k_rows_first
          split: option.split)
qed

lemma check_oc_weights_first:
  "check_oc_weights ic ks w = map_option ValueError (first_failure (oc_checks ic ks w))"
proof (induction w)
  case Nil
  then show ?case by (simp add: oc_checks_def first_failure_Nil)
next
  case (Cons x xs)
  have "oc_checks ic ks (x # xs) =
          ((int (length x) = ic, InputChannelsDimensionMismatch ic (length x)) # ic_checks ks x)
          @ oc_checks ic ks xs"
    by (simp add: oc_checks_def)
  then show ?case
    using Cons
    by (simp add: first_failure_Cons first_failure_append check_ic_weights_first
          split: option.split)
qed

lemma init_first_failure:
  "init ks st pm ic oc w =
     (case first_failure (constructor_checks ks st pm ic oc w) of
        Some m \<Rightarrow> Inl (ValueError m)
      | None \<Rightarrow>
          Inr \<lparr>kernel_size = ks, stride = st, padding_mode = pm, input_channels = ic,
               output_channels = oc, kernel_weights = w\<rparr>)"
  by (simp add: init_def constructor_checks_def first_failure_Cons check_oc_weights_first
        split: option.split)

lemma checks_hold_iff_invariants:
  "(\<forall>c \<in> set (constructor_checks ks st pm ic oc w). fst c) \<longleftrightarrow>
     config_invariants ks st pm ic oc w"
proof -
  have "(\<forall>c \<in> set (oc_checks ic ks w). fst c) \<longleftrightarrow>
          (\<forall>x \<in> set w. int (length x) = ic \<and>
             (\<forall>y \<in> set x. int (length y) = ks \<and> (\<forall>r \<in> set y. int (length r) = ks)))"
    by (auto simp: oc_checks_def ic_checks_def row_checks_def)
  then show ?thesis
    by (auto simp: constructor_checks_def config_invariants_def section3_order_def)
qed

subsection \<open>C4: what the constructor rejects, and in which order\<close>

text \<open>
  Claim C4, as amended. The constructor makes its checks in its own order (kernel
  size, stride, padding mode, input channels, output channels, weights not empty,
  outer length, then the blocks of the weights one after the other) and raises the
  \<^verbatim>\<open>ValueError\<close> (the specification's ConfigError) of the first check that fails,
  returning no layer; it returns the layer when none fails. It fails exactly when an
  invariant of section 3 is violated: in particular for a kernel size of 0, for a
  padding mode of 2 and for an outer length of the weights that is not the number of
  output channels.
\<close>

theorem init_validates:
  "init ks st pm ic oc w =
     (case first_failure (constructor_checks ks st pm ic oc w) of
        Some m \<Rightarrow> Inl (ValueError m)
      | None \<Rightarrow>
          Inr \<lparr>kernel_size = ks, stride = st, padding_mode = pm, input_channels = ic,
               output_channels = oc, kernel_weights = w\<rparr>) \<and>
   ((\<exists>m. init ks st pm ic oc w = Inl (ValueError m)) \<longleftrightarrow>
      \<not> config_invariants ks st pm ic oc w) \<and>
   ((\<exists>e. init ks st pm ic oc w = Inr e) \<longleftrightarrow> config_invariants ks st pm ic oc w) \<and>
   init ks st pm ic oc w \<noteq> Inl IndexError \<and>
   init ks st pm ic oc w \<noteq> Inl ZeroDivisionError \<and>
   (ks = 0 \<or> pm = 2 \<or> int (length w) \<noteq> oc \<longrightarrow>
      (\<exists>m. init ks st pm ic oc w = Inl (ValueError m)))"
proof -
  note eq = init_first_failure[of ks st pm ic oc w]
  have none: "first_failure (constructor_checks ks st pm ic oc w) = None \<longleftrightarrow>
                config_invariants ks st pm ic oc w"
    by (simp add: first_failure_None checks_hold_iff_invariants)
  have bad: "\<not> config_invariants ks st pm ic oc w"
    if "ks = 0 \<or> pm = 2 \<or> int (length w) \<noteq> oc"
    using that by (auto simp: config_invariants_def section3_order_def)
  show ?thesis
  proof (cases "first_failure (constructor_checks ks st pm ic oc w)")
    case None
    then show ?thesis using eq none bad by auto
  next
    case (Some m)
    then show ?thesis using eq none bad by auto
  qed
qed

text \<open>
  Instances: the three rejections that the specification names, and the layer of the
  first example, which is accepted.
\<close>

theorem init_validates_witness:
  "init 0 1 0 1 1 [[[[1 :: int]]]] = Inl (ValueError KernelSizeNotPositive) \<and>
   init 1 1 2 1 1 [[[[1 :: int]]]] = Inl (ValueError PaddingModeNotZeroOrOne) \<and>
   init 1 1 0 1 2 [[[[1 :: int]]]] = Inl (ValueError (OuterDimensionMismatch 2 1)) \<and>
   config_invariants 2 1 1 1 1 [[[[1, 2], [3, 4 :: int]]]] \<and>
   init 2 1 1 1 1 [[[[1, 2], [3, 4]]]] = Inr layer1"
proof -
  have a: "init 0 1 0 1 1 [[[[1 :: int]]]] = Inl (ValueError KernelSizeNotPositive)"
    using init_validates[of 0 1 0 1 1 "[[[[1 :: int]]]]"]
    by (simp add: constructor_checks_def first_failure_Cons)
  have b: "init 1 1 2 1 1 [[[[1 :: int]]]] = Inl (ValueError PaddingModeNotZeroOrOne)"
    using init_validates[of 1 1 2 1 1 "[[[[1 :: int]]]]"]
    by (simp add: constructor_checks_def first_failure_Cons)
  have c: "init 1 1 0 1 2 [[[[1 :: int]]]] = Inl (ValueError (OuterDimensionMismatch 2 1))"
    using init_validates[of 1 1 0 1 2 "[[[[1 :: int]]]]"]
    by (simp add: constructor_checks_def first_failure_Cons)
  have d: "config_invariants 2 1 1 1 1 [[[[1, 2], [3, 4 :: int]]]]"
    by (simp add: config_invariants_def section3_order_def)
  from d obtain e where e: "init 2 1 1 1 1 [[[[1, 2], [3, 4 :: int]]]] = Inr e"
    using init_validates[of 2 1 1 1 1 "[[[[1, 2], [3, 4 :: int]]]]"] by blast
  then have "e = layer1"
    by (simp add: init_def layer1_def split: if_splits)
  with a b c d e show ?thesis by simp
qed

text \<open>
  The order is not that of section 3, which lists the padding mode after the four
  sizes: with a padding mode of 2 and no input channel, the constructor reports the
  padding mode, and the first invariant of section 3 that is violated is that the
  number of input channels is positive.
\<close>

theorem init_order_counterexample:
  "init 1 1 2 0 1 [[[[1 :: int]]]] = Inl (ValueError PaddingModeNotZeroOrOne) \<and>
   reports PaddingModeNotZeroOrOne = Some PaddingModeKnown \<and>
   first_violated 1 1 2 0 1 [[[[1 :: int]]]] = Some InputChannelsPositive"
  by (simp add: init_def first_violated_def section3_order_def)

section \<open>Zero and identity kernels on floats\<close>

lemma finite_times_zero: "finite_float x \<Longrightarrow> x * 0 = (0 :: pyfloat)"
  by (cases x) (simp_all add: finite_float_def zero_pyfloat_def)

lemma float_times_one: "x * 1 = (x :: pyfloat)"
  by (cases x) (simp_all add: one_pyfloat_def)

lemma float_zero_plus: "0 + x = (x :: pyfloat)"
  by (cases x) (simp_all add: zero_pyfloat_def)

lemma float_plus_zero: "x + 0 = (x :: pyfloat)"
  by (cases x) (simp_all add: zero_pyfloat_def)

lemma foldl_plus_zeros:
  "\<forall>t \<in> set ts. t = (0 :: pyfloat) \<Longrightarrow> foldl (+) x ts = x"
  by (induction ts arbitrary: x) (simp_all add: float_plus_zero)

lemma foldl_plus_single:
  assumes "j < length ts" "\<forall>i < length ts. i \<noteq> j \<longrightarrow> ts ! i = (0 :: pyfloat)"
  shows "foldl (+) 0 ts = ts ! j"
proof -
  have split: "ts = take j ts @ ts ! j # drop (Suc j) ts"
    using assms(1) by (simp add: id_take_nth_drop)
  have before: "\<forall>t \<in> set (take j ts). t = 0"
    using assms by (auto simp: in_set_conv_nth)
  have after: "\<forall>t \<in> set (drop (Suc j) ts). t = 0"
    using assms by (auto simp: in_set_conv_nth)
  have "foldl (+) 0 ts = foldl (+) 0 (take j ts @ ts ! j # drop (Suc j) ts)"
    using split by simp
  also have "\<dots> = foldl (+) (foldl (+) 0 (take j ts) + ts ! j) (drop (Suc j) ts)"
    by simp
  also have "\<dots> = ts ! j"
    by (simp add: foldl_plus_zeros[OF before] foldl_plus_zeros[OF after] float_zero_plus)
  finally show ?thesis .
qed

lemma sample_finite:
  assumes "\<forall>c \<in> set img. \<forall>r \<in> set c. \<forall>v \<in> set r. finite_float v"
    and "tensor_shape n (nat (input_height d)) (nat (input_width d)) img" "i < n"
  shows "finite_float (sample d img i h w)"
proof (cases "in_bounds d h w")
  case True
  then have hw: "nat h < nat (input_height d)" "nat w < nat (input_width d)"
    by (simp_all add: in_bounds_def)
  have "i < length img" using assms(2,3) by (simp add: tensor_shape_def)
  moreover have "nat h < length (img ! i)"
    using tensor_shape_nth(1)[OF assms(2,3)] hw by simp
  moreover have "nat w < length (img ! i ! nat h)"
    using tensor_shape_nth(2)[OF assms(2,3) hw(1)] hw by simp
  ultimately have "finite_float (img ! i ! nat h ! nat w)"
    using assms(1) by (meson nth_mem)
  then show ?thesis using True by (simp add: sample_def)
next
  case False
  then show ?thesis by (simp add: sample_def finite_float_def zero_pyfloat_def)
qed

lemma weight_in_set:
  assumes "weights_ok e" "int c < output_channels e" "int i < input_channels e"
    "int kh < kernel_size e" "int kw < kernel_size e"
  shows "\<exists>x \<in> set (kernel_weights e). \<exists>y \<in> set x. \<exists>r \<in> set y.
           kernel_weights e ! c ! i ! kh ! kw \<in> set r"
proof -
  note n = weights_ok_nth[OF assms(1,2)]
  have 1: "c < length (kernel_weights e)" by (rule n(1))
  have 2: "i < length (kernel_weights e ! c)" using n(2) assms(3) by linarith
  have 3: "kh < length (kernel_weights e ! c ! i)"
    using n(3)[OF assms(3)] assms(4) by linarith
  have 4: "kw < length (kernel_weights e ! c ! i ! kh)"
    using n(4)[OF assms(3,4)] assms(5) by linarith
  show ?thesis using 1 2 3 4 by (meson nth_mem)
qed

lemma cell_sum_zero_kernel:
  fixes e :: "pyfloat ConvolutionLayer"
  assumes "weights_ok e"
    and "\<forall>x \<in> set (kernel_weights e). \<forall>y \<in> set x. \<forall>r \<in> set y. \<forall>v \<in> set r. v = 0"
    and "\<forall>c \<in> set img. \<forall>r \<in> set c. \<forall>v \<in> set r. finite_float v"
    and "tensor_shape (nat (input_channels e)) (nat (input_height d)) (nat (input_width d)) img"
    and "int c < output_channels e"
  shows "cell_sum e d img c h w = 0"
proof -
  have "cell_term e d img c h w i kh kw = 0"
    if "i < nat (input_channels e)" "kh < nat (kernel_size e)" "kw < nat (kernel_size e)"
    for i kh kw
  proof -
    have lt: "int i < input_channels e" "int kh < kernel_size e" "int kw < kernel_size e"
      using that by simp_all
    have "kernel_weights e ! c ! i ! kh ! kw = 0"
      using weight_in_set[OF assms(1,5) lt] assms(2) by blast
    then show ?thesis
      using sample_finite[OF assms(3,4) that(1)]
      by (simp add: cell_term_def finite_times_zero)
  qed
  then have "\<forall>t \<in> set [cell_term e d img c h w i kh kw.
                 i \<leftarrow> [0..<nat (input_channels e)],
                 kh \<leftarrow> [0..<nat (kernel_size e)],
                 kw \<leftarrow> [0..<nat (kernel_size e)]]. t = 0"
    by auto
  then show ?thesis
    unfolding cell_sum_def by (rule foldl_plus_zeros)
qed

lemma accepted_run:
  fixes e :: "('a::{zero,plus,times}) ConvolutionLayer"
  assumes "init ks st pm ic oc wts = Inr e" "rectangular img" "\<not> shape_rejected e img"
    and "exact_sizes e img"
  shows "\<exists>d. derive_dims e (tensor_height img) (tensor_width img) = Inr d \<and>
           forward e img = Inr (conv_spec e d img) \<and>
           input_height d = tensor_height img \<and> input_width d = tensor_width img \<and>
           output_height d = output_dim e (tensor_height img) \<and>
           output_width d = output_dim e (tensor_width img) \<and>
           padding_h d = (if padding_mode e = 0 then 0 else same_padding e (tensor_height img)) \<and>
           padding_w d = (if padding_mode e = 0 then 0 else same_padding e (tensor_width img)) \<and>
           tensor_shape (nat (input_channels e)) (nat (input_height d)) (nat (input_width d)) img"
proof -
  note c = init_Inr[OF assms(1)]
  obtain d where d: "derive_dims e (tensor_height img) (tensor_width img) = Inr d"
    "input_height d = tensor_height img" "input_width d = tensor_width img"
    "output_height d = output_dim e (tensor_height img)"
    "output_width d = output_dim e (tensor_width img)"
    "padding_h d = (if padding_mode e = 0 then 0 else same_padding e (tensor_height img))"
    "padding_w d = (if padding_mode e = 0 then 0 else same_padding e (tensor_width img))"
    using derive_dims_layer[OF assms(1,4)] by blast
  have a: "\<not> tensor_empty img" "int (length img) = input_channels e"
    "0 < output_height d" "0 < output_width d"
    using assms(3) d(4,5) by (simp_all add: shape_rejected_def)
  have "forward e img = Inr (conv_spec e d img)"
    by (rule forward_ok[OF c(7) assms(2) a(1,2) d(1) a(3,4)])
  moreover have "tensor_shape (nat (input_channels e)) (nat (input_height d))
                   (nat (input_width d)) img"
    using rectangular_shape[OF assms(2) a(2)] d(2,3) by simp
  ultimately show ?thesis using d by blast
qed

subsection \<open>C6: a kernel of zeros\<close>

text \<open>
  Claim C6, as amended. For a layer whose kernel weights are all \<^verbatim>\<open>0.0\<close> and an
  accepted input whose samples are all finite floats, with VALID padding or with a
  stride, a kernel size and a height and width of the input below \<open>2^53\<close>,
  \<^verbatim>\<open>forward\<close> returns a tensor and every cell of it is \<^verbatim>\<open>0.0\<close>, whatever
  the finite values, the stride and the padding mode.
\<close>

theorem zero_kernel_finite:
  fixes e :: "pyfloat ConvolutionLayer"
  assumes "init ks st pm ic oc wts = Inr e"
    and "\<forall>x \<in> set wts. \<forall>y \<in> set x. \<forall>r \<in> set y. \<forall>v \<in> set r. v = 0"
    and "rectangular img" "\<not> shape_rejected e img"
    and "\<forall>c \<in> set img. \<forall>r \<in> set c. \<forall>v \<in> set r. finite_float v"
    and "exact_sizes e img"
  shows "\<exists>out. forward e img = Inr out \<and> (\<forall>c \<in> set out. \<forall>r \<in> set c. \<forall>v \<in> set r. v = 0)"
proof -
  note c = init_Inr[OF assms(1)]
  have w0: "\<forall>x \<in> set (kernel_weights e). \<forall>y \<in> set x. \<forall>r \<in> set y. \<forall>v \<in> set r. v = 0"
    using assms(2) c(1) by simp
  obtain d where d: "forward e img = Inr (conv_spec e d img)"
    "tensor_shape (nat (input_channels e)) (nat (input_height d)) (nat (input_width d)) img"
    using accepted_run[OF assms(1,3,4,6)] by blast
  have "cell_sum e d img oc' h w = 0" if "oc' < nat (output_channels e)" for oc' h w
    using cell_sum_zero_kernel[OF c(7) w0 assms(5) d(2), of oc' h w] that by simp
  then have "\<forall>c \<in> set (conv_spec e d img). \<forall>r \<in> set c. \<forall>v \<in> set r. v = 0"
    by (auto simp: conv_spec_def)
  with d(1) show ?thesis by blast
qed

text \<open>An instance: the kernel \<^verbatim>\<open>[[[[0.0]]]]\<close> on a row of two finite samples.\<close>

theorem zero_kernel_finite_witness:
  "init 1 1 0 1 1 [[[[0]]]] = Inr zero_layer \<and>
   rectangular [[[Finite 5, Finite (- 3)]]] \<and>
   \<not> shape_rejected zero_layer [[[Finite 5, Finite (- 3)]]] \<and>
   exact_sizes zero_layer [[[Finite 5, Finite (- 3)]]] \<and>
   forward zero_layer [[[Finite 5, Finite (- 3)]]] = Inr [[[0, 0]]]"
proof -
  let ?img = "[[[Finite 5, Finite (- 3)]]]"
  have h1: "init 1 1 0 1 1 [[[[0]]]] = Inr zero_layer"
    by (simp add: init_def zero_layer_def)
  have h2: "\<forall>x \<in> set [[[[0 :: pyfloat]]]]. \<forall>y \<in> set x. \<forall>r \<in> set y. \<forall>v \<in> set r. v = 0"
    by simp
  have h3: "rectangular ?img"
    by (simp add: rectangular_def tensor_height_def tensor_width_def)
  have h4: "\<not> shape_rejected zero_layer ?img"
    by (simp add: shape_rejected_def output_dim_def tensor_empty_def tensor_height_def
          tensor_width_def zero_layer_def)
  have h5: "\<forall>c \<in> set ?img. \<forall>r \<in> set c. \<forall>v \<in> set r. finite_float v"
    by (simp add: finite_float_def)
  have h6: "exact_sizes zero_layer ?img"
    by (simp add: exact_sizes_def zero_layer_def)
  from zero_kernel_finite[OF h1 h2 h3 h4 h5 h6]
  obtain out where out: "forward zero_layer ?img = Inr out"
    "\<forall>c \<in> set out. \<forall>r \<in> set c. \<forall>v \<in> set r. v = 0"
    by blast
  have "forward zero_layer ?img = Inr [[[0, 0]]]"
    by code_simp
  then have "out = [[[0, 0]]]"
    using out(1) by simp
  then show ?thesis using h1 h3 h4 h6 out(1) by simp
qed

text \<open>
  The claim as it stands fails on a sample that is not finite: in Python
  \<^verbatim>\<open>float('inf') * 0.0\<close> is \<^verbatim>\<open>nan\<close>, and so is the cell. It also fails for
  a stride beyond the range of a double, where the call on an accepted input of finite
  samples raises \<^verbatim>\<open>OverflowError\<close> and returns nothing.
\<close>

theorem zero_kernel_counterexample:
  "init 1 1 0 1 1 [[[[0]]]] = Inr zero_layer \<and>
   rectangular [[[PosInf]]] \<and> \<not> shape_rejected zero_layer [[[PosInf]]] \<and>
   forward zero_layer [[[PosInf]]] = Inr [[[NaN]]] \<and> NaN \<noteq> (0 :: pyfloat) \<and>
   init 1 huge_stride 1 1 1 [[[[0]]]] = Inr (huge_stride_layer 1 [[[[0 :: pyfloat]]]]) \<and>
   rectangular [[[Finite 5]]] \<and>
   \<not> shape_rejected (huge_stride_layer 1 [[[[0 :: pyfloat]]]]) [[[Finite 5]]] \<and>
   forward (huge_stride_layer 1 [[[[0]]]]) [[[Finite 5]]] = Inl OverflowError"
proof -
  have e: "\<not> tensor_empty [[[Finite 5]]]" by (simp add: tensor_empty_def)
  have hw: "tensor_height [[[Finite 5]]] = 1" "tensor_width [[[Finite 5]]] = 1"
    by (simp_all add: tensor_height_def tensor_width_def)
  have g1: "init 1 huge_stride 1 1 1 [[[[0]]]] = Inr (huge_stride_layer 1 [[[[0 :: pyfloat]]]])"
    using huge_stride_pos by (simp add: init_def huge_stride_layer_def)
  have g2: "rectangular [[[Finite 5]]]"
    by (simp add: rectangular_def hw)
  have g3: "\<not> shape_rejected (huge_stride_layer 1 [[[[0 :: pyfloat]]]]) [[[Finite 5]]]"
    by (rule huge_not_rejected) (simp_all add: e hw)
  have g4: "forward (huge_stride_layer 1 [[[[0]]]]) [[[Finite 5]]] = Inl OverflowError"
    by (rule forward_huge) (simp_all add: e hw)
  have h1: "init 1 1 0 1 1 [[[[0]]]] = Inr zero_layer"
    by (simp add: init_def zero_layer_def)
  have h3: "rectangular [[[PosInf]]]"
    by (simp add: rectangular_def tensor_height_def tensor_width_def)
  have h4: "\<not> shape_rejected zero_layer [[[PosInf]]]"
    by (simp add: shape_rejected_def output_dim_def tensor_empty_def tensor_height_def
          tensor_width_def zero_layer_def)
  have h5: "forward zero_layer [[[PosInf]]] = Inr [[[NaN]]]"
    by code_simp
  have h6: "NaN \<noteq> (0 :: pyfloat)"
    by (simp add: zero_pyfloat_def)
  show ?thesis using h1 h3 h4 h5 h6 g1 g2 g3 g4 by blast
qed

subsection \<open>C7: a kernel that selects one input channel\<close>

text \<open>
  Claim C7, as amended. For a layer with kernel size 1, stride 1 and padding mode
  VALID, an output channel \<open>c\<close> and an input channel \<open>j\<close> such that the weight of
  \<open>c\<close> for \<open>j\<close> is \<^verbatim>\<open>1.0\<close> and its weights for the other input channels are
  \<^verbatim>\<open>0.0\<close>, and an accepted input whose samples in the other input channels are finite
  floats, channel \<open>c\<close> of the tensor that \<^verbatim>\<open>forward\<close> returns is channel \<open>j\<close> of
  the input.
\<close>

theorem identity_kernel_finite:
  fixes e :: "pyfloat ConvolutionLayer"
  assumes "init 1 1 0 ic oc wts = Inr e"
    and "rectangular img" "\<not> shape_rejected e img"
    and "c < nat oc" "j < nat ic"
    and "wts ! c ! j ! 0 ! 0 = 1"
    and "\<forall>i < nat ic. i \<noteq> j \<longrightarrow> wts ! c ! i ! 0 ! 0 = 0"
    and "\<forall>i < nat ic. i \<noteq> j \<longrightarrow> (\<forall>r \<in> set (img ! i). \<forall>v \<in> set r. finite_float v)"
  shows "\<exists>out. forward e img = Inr out \<and> out ! c = img ! j"
proof -
  note i = init_Inr[OF assms(1)]
  have e: "kernel_size e = 1" "stride e = 1" "padding_mode e = 0" "input_channels e = ic"
    "output_channels e = oc" "kernel_weights e = wts"
    using i(1) by simp_all
  obtain d where d: "forward e img = Inr (conv_spec e d img)"
    "input_height d = tensor_height img" "input_width d = tensor_width img"
    "output_height d = output_dim e (tensor_height img)"
    "output_width d = output_dim e (tensor_width img)"
    "padding_h d = (if padding_mode e = 0 then 0 else same_padding e (tensor_height img))"
    "padding_w d = (if padding_mode e = 0 then 0 else same_padding e (tensor_width img))"
    "tensor_shape (nat (input_channels e)) (nat (input_height d)) (nat (input_width d)) img"
    using accepted_run[OF assms(1,2,3)] e(3) by (auto simp: exact_sizes_def)
  let ?H = "nat (tensor_height img)" and ?W = "nat (tensor_width img)"
  have od: "output_height d = tensor_height img" "output_width d = tensor_width img"
    using d(4,5) e by (simp_all add: output_dim_def)
  have pad: "padding_h d = 0" "padding_w d = 0"
    using d(6,7) e by simp_all
  have sh: "tensor_shape (nat ic) ?H ?W img"
    using d(8) d(2,3) e by simp
  have cell: "cell_sum e d img c h w = img ! j ! h ! w" if hw: "h < ?H" "w < ?W" for h w
  proof -
    let ?ts = "map (\<lambda>i. cell_term e d img c h w i 0 0) [0..<nat ic]"
    have ib: "in_bounds d (int h) (int w)"
      using hw d(2,3) unfolding in_bounds_def by linarith
    have prd: "cell_term e d img c h w i 0 0 = img ! i ! h ! w * wts ! c ! i ! 0 ! 0" for i
      using ib by (simp add: cell_term_def sample_def h_idx_def w_idx_def e pad)
    have fin: "finite_float (img ! i ! h ! w)" if "i < nat ic" "i \<noteq> j" for i
    proof -
      have "h < length (img ! i)"
        using tensor_shape_nth(1)[OF sh that(1)] hw by simp
      moreover have "w < length (img ! i ! h)"
        using tensor_shape_nth(2)[OF sh that(1) hw(1)] hw by simp
      ultimately show ?thesis
        using assms(8) that by (meson nth_mem)
    qed
    have others: "\<forall>i < length ?ts. i \<noteq> j \<longrightarrow> ?ts ! i = 0"
      using assms(7) fin by (simp add: prd finite_times_zero)
    have "cell_sum e d img c h w = foldl (+) 0 ?ts"
      by (simp add: cell_sum_def e)
    also have "\<dots> = ?ts ! j"
      by (rule foldl_plus_single) (use assms(5) others in simp_all)
    also have "\<dots> = img ! j ! h ! w"
      using assms(5,6) by (simp add: prd float_times_one)
    finally show ?thesis .
  qed
  have lj: "length (img ! j) = ?H" "\<And>h. h < ?H \<Longrightarrow> length (img ! j ! h) = ?W"
    using tensor_shape_nth[OF sh assms(5)] by simp_all
  have "conv_spec e d img ! c =
          map (\<lambda>h. map (\<lambda>w. cell_sum e d img c h w) [0..<?W]) [0..<?H]"
    using assms(4) by (simp add: conv_spec_def e od)
  also have "\<dots> = img ! j"
  proof (rule nth_equalityI)
    show "length (map (\<lambda>h. map (\<lambda>w. cell_sum e d img c h w) [0..<?W]) [0..<?H])
            = length (img ! j)"
      using lj(1) by simp
  next
    fix h
    assume "h < length (map (\<lambda>h. map (\<lambda>w. cell_sum e d img c h w) [0..<?W]) [0..<?H])"
    then have h: "h < ?H" by simp
    have "map (\<lambda>w. cell_sum e d img c h w) [0..<?W] = img ! j ! h"
      by (rule nth_equalityI) (use lj(2)[OF h] cell[OF h] in simp_all)
    then show "map (\<lambda>h. map (\<lambda>w. cell_sum e d img c h w) [0..<?W]) [0..<?H] ! h
                 = img ! j ! h"
      using h by simp
  qed
  finally show ?thesis using d(1) by blast
qed

text \<open>
  An instance: two input channels, the first selected; a not-a-number in the selected
  channel is reproduced with the rest of it.
\<close>

theorem identity_kernel_finite_witness:
  "init 1 1 0 2 1 [[[[1]], [[0]]]] = Inr identity_layer \<and>
   rectangular [[[Finite 5, NaN]], [[Finite 2, Finite (- 3)]]] \<and>
   \<not> shape_rejected identity_layer [[[Finite 5, NaN]], [[Finite 2, Finite (- 3)]]] \<and>
   (\<exists>out. forward identity_layer [[[Finite 5, NaN]], [[Finite 2, Finite (- 3)]]] = Inr out \<and>
      out ! 0 = [[Finite 5, NaN]])"
proof -
  let ?img = "[[[Finite 5, NaN]], [[Finite 2, Finite (- 3)]]]"
  have h1: "init 1 1 0 2 1 [[[[1]], [[0]]]] = Inr identity_layer"
    by (simp add: init_def identity_layer_def)
  have h2: "rectangular ?img"
    by (simp add: rectangular_def tensor_height_def tensor_width_def)
  have h3: "\<not> shape_rejected identity_layer ?img"
    by (simp add: shape_rejected_def output_dim_def tensor_empty_def tensor_height_def
          tensor_width_def identity_layer_def)
  have h4: "(0 :: nat) < nat 1" and h5: "(0 :: nat) < nat 2" by simp_all
  have h6: "[[[[1]], [[0 :: pyfloat]]]] ! 0 ! 0 ! 0 ! 0 = 1" by simp
  have h7: "\<forall>i < nat 2. i \<noteq> 0 \<longrightarrow> [[[[1]], [[0 :: pyfloat]]]] ! 0 ! i ! 0 ! 0 = 0"
    by (simp add: less_Suc_eq nat_2 numeral_2_eq_2)
  have h8: "\<forall>i < nat 2. i \<noteq> 0 \<longrightarrow> (\<forall>r \<in> set (?img ! i). \<forall>v \<in> set r. finite_float v)"
    by (simp add: less_Suc_eq numeral_2_eq_2 finite_float_def)
  from identity_kernel_finite[OF h1 h2 h3 h4 h5 h6 h7 h8]
  obtain out where "forward identity_layer ?img = Inr out" "out ! 0 = ?img ! 0"
    by blast
  then show ?thesis using h1 h2 h3 by simp
qed

text \<open>
  The claim as it stands fails on a sample of another channel that is not finite: the
  term \<^verbatim>\<open>float('inf') * 0.0\<close> is \<^verbatim>\<open>nan\<close>, and the sum with it is \<^verbatim>\<open>nan\<close>.
\<close>

theorem identity_kernel_counterexample:
  "init 1 1 0 2 1 [[[[1]], [[0]]]] = Inr identity_layer \<and>
   rectangular [[[Finite 5]], [[PosInf]]] \<and>
   \<not> shape_rejected identity_layer [[[Finite 5]], [[PosInf]]] \<and>
   forward identity_layer [[[Finite 5]], [[PosInf]]] = Inr [[[NaN]]] \<and>
   [[NaN]] \<noteq> [[[Finite 5]], [[PosInf]]] ! 0"
proof -
  let ?img = "[[[Finite 5]], [[PosInf]]]"
  have h1: "init 1 1 0 2 1 [[[[1]], [[0]]]] = Inr identity_layer"
    by (simp add: init_def identity_layer_def)
  have h2: "rectangular ?img"
    by (simp add: rectangular_def tensor_height_def tensor_width_def)
  have h3: "\<not> shape_rejected identity_layer ?img"
    by (simp add: shape_rejected_def output_dim_def tensor_empty_def tensor_height_def
          tensor_width_def identity_layer_def)
  have h4: "forward identity_layer ?img = Inr [[[NaN]]]"
    by code_simp
  have h5: "[[NaN]] \<noteq> ?img ! 0" by simp
  show ?thesis using h1 h2 h3 h4 h5 by blast
qed

end
